theory Spec2Isabelle
  imports
    Complex_Main
    "HOL-Library.Char_ord"
    "HOL-Library.List_Lexorder"
    "HOL-Library.Multiset"
    "HOL-Library.AList"
begin

section \<open>Values that cross the program's boundary\<close>

text \<open>
  The program is a Python script that talks to a remote REST service, to a JSON file in
  the user's home directory, to the console and to a browser. The model makes each of
  these explicit:
  \<^item> what the service answers is a parameter (a record \<open>server\<close> of functions from the
    number of the HTTP request and the request itself to the outcome of that request);
  \<^item> what the program does to the outside is logged in a record \<open>world\<close>, which every function
    takes and returns: the HTTP requests issued, the sleeps, the lines printed, the
    state file, the console input still unread;
  \<^item> an exception that leaves a function is the result \<open>Raises e\<close>; a normal return is
    \<open>Returns v\<close>.

  API objects are Python dictionaries. The model types them by the documented schema of
  the service (the keys the program reads), with \<open>option\<close> for the keys the program
  itself treats as optional (\<open>dict.get\<close> with a default, or an \<open>in\<close> test).
\<close>

datatype exn = ValueError | UnboundLocalError | RequestException | EOFError | KeyError | AttributeError

datatype 'a result = Returns 'a | Raises exn

text \<open>
  What \<open>make_spotify_request\<close> hands back: Python's \<open>None\<close>, the empty dictionary \<open>{}\<close>,
  or the parsed JSON object of the response body.
\<close>

datatype 'a reply = PyNone | EmptyObj | Obj 'a

text \<open>Python truthiness of a reply, as \<open>if result:\<close> and \<open>if not result:\<close> test it.\<close>

fun truthy :: "'a reply \<Rightarrow> bool" where
  "truthy PyNone = False"
| "truthy EmptyObj = False"
| "truthy (Obj x) = True"

text \<open>
  The \<open>Retry-After\<close> header as \<open>int(response.headers.get('Retry-After', 1))\<close> sees it:
  absent, a text that \<open>int\<close> parses (to the given number), or a text on which \<open>int\<close>
  raises \<open>ValueError\<close> (an HTTP date, for instance).
\<close>

datatype header = Absent | IntText int | OtherText string

fun int_or_default :: "header \<Rightarrow> int result" where
  "int_or_default Absent = Returns 1"
| "int_or_default (IntText n) = Returns n"
| "int_or_default (OtherText s) = Raises ValueError"

text \<open>
  The outcome of one HTTP call of the \<open>requests\<close> library: a
  \<open>requests.exceptions.RequestException\<close> (with its message), or a response with its
  status code, its \<open>Retry-After\<close> header, its body text and the value of
  \<open>response.json()\<close>. The last is read only when the text is not empty.
\<close>

datatype 'a outcome =
    NetError string
  | Response (status_code: int) (retry_after: header) (body_text: string) (json: 'a)

text \<open>Values of the dictionaries the program passes as \<open>params\<close> or \<open>json\<close>.\<close>

datatype arg = Str string | Num int | Flag bool | Strs "string list"

record request =
  verb :: string
  url :: string
  headers :: "(string \<times> string) list"
  params :: "(string \<times> arg) list option"
  json_body :: "(string \<times> arg) list option"

text \<open>
  What the modelled functions print, with the values they interpolate. A message stands
  for one \<open>print\<close> call, or for two that follow each other without anything between.
\<close>

datatype message =
    RateLimitExceeded int
  | ErrorMakingRequest int
  | ResponseText string
  | RequestError string
  | Retrying int int
  | MaximumRetriesExceeded int
  | ErrorLoadingState
  | ErrorSavingState
  | UsingSavedArtist string string
  | SavedArtistNoLongerValid
  | ArtistNotFound string
  | FoundArtist string string
  | MultipleArtistsFound string
  | ArtistOption nat string int
  | Selected string
  | InvalidChoice
  | EnterNumberOrQ
  | FoundPrimaryAlbums nat nat
  | FetchingPopularity
  | ProcessingTrack nat nat
  | UsingSavedAccessToken
  | RefreshingAccessToken
  | ErrorRefreshingToken int
  | ErrorExchangingCode int
  | ExternalCallbackNote string
  | CallbackServerWarning
  | OpeningBrowser
  | EnterChoicePrompt
  | EnterCodePrompt
  | WaitingForAuthorization
  | PasteCodeInstructions
  | AuthorizationFailedOrTimedOut
  | FailedToGetAccessToken
  | FailedToAddTracks nat nat
  | AddingTracks nat
  | PlaylistCreatedSuccessfully string nat
  | PlaylistCreatedWithErrors string

subsection \<open>Catalog objects and the state document\<close>

record artist =
  artist_id :: string
  artist_name :: string
  followers_total :: "int option"

record album =
  album_id :: string
  album_artists :: "artist list"
  release_date :: string

record track =
  track_id :: string
  track_name :: string
  uri :: string
  track_artists :: "artist list"
  album_release_date :: "string option"
  popularity :: "int option"

text \<open>A page of a paginated listing: its \<open>items\<close> and its \<open>next\<close> link.\<close>

record 'a page =
  items :: "'a list"
  next_link :: "string option"

record artist_choice =
  choice_id :: string
  choice_name :: string

text \<open>
  The state document: a dictionary with the optional keys \<open>artist_choices\<close> (itself a
  dictionary from the entered name to the chosen artist; an association list keeps
  Python's insertion order), \<open>access_token\<close>, \<open>refresh_token\<close> and \<open>expires_at\<close>.
  Times are seconds since the epoch; the model computes with them exactly.
\<close>

record state =
  artist_choices :: "(string \<times> artist_choice) list option"
  access_token :: "string option"
  refresh_token :: "string option"
  expires_at :: "real option"

text \<open>The state file on disk: missing, present but not loadable, or holding a document.\<close>

datatype state_file = NoFile | Unreadable | Doc state

text \<open>
  A line typed at the console, seen through the three operations the program applies
  to a line: \<open>choice.lower() == 'q'\<close>, \<open>int(choice)\<close> (\<open>None\<close> when it raises
  \<open>ValueError\<close>) and \<open>.strip()\<close>.
\<close>

record line =
  is_q :: bool
  as_int :: "int option"
  stripped :: string

text \<open>
  The token endpoint: a form post with HTTP basic authentication (the client id and
  secret), answered by a dictionary with \<open>access_token\<close>, \<open>expires_in\<close> and, not always,
  \<open>refresh_token\<close>.
\<close>

record token_request =
  basic_id :: string
  basic_secret :: string
  form :: "(string \<times> string) list"

record token_data =
  td_access_token :: string
  td_expires_in :: int
  td_refresh_token :: "string option"

text \<open>The authorize URL opened in the browser, by its query parameters.\<close>

record authorize_url =
  au_client_id :: string
  au_redirect_uri :: string
  au_scope :: string
  au_state :: string

text \<open>
  The callback URL as \<open>urllib.parse.urlparse\<close> reads it: the URL and its host name
  (\<open>None\<close> when the URL has none).
\<close>

record callback =
  cb_url :: string
  cb_hostname :: "string option"

record playlist =
  playlist_id :: string
  playlist_url :: string

text \<open>
  The service and the rest of the environment the program reads: one function per
  endpoint (the outcome of the \<open>n\<close>-th HTTP request of the run when it is the given
  request), the token endpoint (by the number of the post), the clock
  (\<open>time.time()\<close>), whether the local callback listener can bind its port, the code
  the listener has received when the wait for it ends, and the random value
  \<open>os.urandom\<close> yields for the anti-forgery parameter.
\<close>

record server =
  artist_api :: "nat \<Rightarrow> request \<Rightarrow> artist outcome"
  search_api :: "nat \<Rightarrow> request \<Rightarrow> artist list outcome"
  albums_api :: "nat \<Rightarrow> request \<Rightarrow> album page outcome"
  tracks_api :: "nat \<Rightarrow> request \<Rightarrow> track page outcome"
  track_api :: "nat \<Rightarrow> request \<Rightarrow> track outcome"
  add_api :: "nat \<Rightarrow> request \<Rightarrow> string outcome"
  token_api :: "nat \<Rightarrow> token_request \<Rightarrow> token_data outcome"
  now :: real
  bind_ok :: bool
  callback_code :: "string option"
  nonce :: string

text \<open>
  Everything the program does to the outside, in the order it does it: the HTTP requests
  to the API, the posts to the token endpoint, the sleeps, the lines printed, the state
  file (and whether it can be written), the console input not yet read, the URLs opened
  in the browser and whether the callback listener runs.
\<close>

record world =
  requests :: "request list"
  token_posts :: "token_request list"
  sleeps :: "int list"
  printed :: "message list"
  saved :: state_file
  writable :: bool
  stdin :: "line list"
  browser :: "authorize_url list"
  listening :: bool

definition say :: "message \<Rightarrow> world \<Rightarrow> world" where
  "say m w = w\<lparr>printed := printed w @ [m]\<rparr>"

section \<open>The HTTP client wrapper\<close>

definition SPOTIFY_API_BASE :: string where
  "SPOTIFY_API_BASE = ''https://api.spotify.com/v1''"

text \<open>
  The request that one pass of the loop sends: \<open>requests.get(url, headers, params)\<close>,
  or \<open>requests.post\<close>/\<open>requests.put\<close> with the \<open>Content-Type\<close> header added and the
  \<open>json\<close> body. Any other method sends nothing, and the read of \<open>response\<close> that follows
  raises \<open>UnboundLocalError\<close>.
\<close>

definition build_request ::
  "string \<Rightarrow> string \<Rightarrow> string \<Rightarrow> (string \<times> arg) list option \<Rightarrow> (string \<times> arg) list option
    \<Rightarrow> request option" where
  "build_request endpoint token meth data ps =
     (let hs = [(''Authorization'', ''Bearer '' @ token)];
          u = SPOTIFY_API_BASE @ ''/'' @ endpoint
      in if meth = ''GET'' then
           Some \<lparr>verb = ''GET'', url = u, headers = hs, params = ps, json_body = None\<rparr>
         else if meth = ''POST'' \<or> meth = ''PUT'' then
           Some \<lparr>verb = meth, url = u,
                 headers = hs @ [(''Content-Type'', ''application/json'')],
                 params = None, json_body = data\<rparr>
         else None)"

text \<open>
  The retry loop of \<open>make_spotify_request\<close>, from the value \<open>retries\<close> on. The parameter
  \<open>api\<close> is the service: the outcome of the \<open>n\<close>-th HTTP request of the run (counted from
  0 over the whole log) when it is the request \<open>q\<close>. \<open>time.sleep\<close> raises \<open>ValueError\<close>
  on a negative duration.
\<close>

function request_loop ::
  "(nat \<Rightarrow> request \<Rightarrow> 'a outcome) \<Rightarrow> request option \<Rightarrow> int \<Rightarrow> int \<Rightarrow> world
    \<Rightarrow> 'a reply result \<times> world" where
  "request_loop api rq max_retries retries w =
     (if retries \<le> max_retries then
        (case rq of
           None \<Rightarrow> (Raises UnboundLocalError, w)
         | Some q \<Rightarrow>
             (let w1 = w\<lparr>requests := requests w @ [q]\<rparr> in
              case api (length (requests w)) q of
                NetError e \<Rightarrow>
                  (let w2 = say (RequestError e) w1 in
                   if retries < max_retries then
                     (let w3 = say (Retrying (retries + 1) max_retries) w2;
                          w4 = w3\<lparr>sleeps := sleeps w3 @ [2]\<rparr>
                      in request_loop api rq max_retries (retries + 1) w4)
                   else (Returns PyNone, w2))
              | Response st hdr txt js \<Rightarrow>
                  if st = 429 then
                    (case int_or_default hdr of
                       Raises e \<Rightarrow> (Raises e, w1)
                     | Returns secs \<Rightarrow>
                         (let w2 = say (RateLimitExceeded secs) w1 in
                          if secs < 0 then (Raises ValueError, w2)
                          else request_loop api rq max_retries (retries + 1)
                                 (w2\<lparr>sleeps := sleeps w2 @ [secs]\<rparr>)))
                  else if st \<ge> 400 then
                    (Returns PyNone, say (ResponseText txt) (say (ErrorMakingRequest st) w1))
                  else (Returns (if txt \<noteq> [] then Obj js else EmptyObj), w1)))
      else (Returns PyNone, say (MaximumRetriesExceeded max_retries) w))"
  by pat_completeness auto
termination
  by (relation "measure (\<lambda>(api, rq, m, r, w). nat (m + 1 - r))") auto

declare request_loop.simps [simp del]

definition make_spotify_request ::
  "(nat \<Rightarrow> request \<Rightarrow> 'a outcome) \<Rightarrow> string \<Rightarrow> string \<Rightarrow> string \<Rightarrow> (string \<times> arg) list option
    \<Rightarrow> (string \<times> arg) list option \<Rightarrow> int \<Rightarrow> world \<Rightarrow> 'a reply result \<times> world" where
  "make_spotify_request api endpoint token meth data ps max_retries w =
     request_loop api (build_request endpoint token meth data ps) max_retries 0 w"
section \<open>The state store\<close>

definition default_state :: state where
  "default_state =
     \<lparr>artist_choices = Some [], access_token = None, refresh_token = None, expires_at = None\<rparr>"

text \<open>
  \<open>load_state\<close>: the document of the file when it exists and loads; otherwise (with an
  error line when loading fails) the document \<open>{"artist_choices": {}}\<close>.
\<close>

definition load_state :: "world \<Rightarrow> state \<times> world" where
  "load_state w =
     (case saved w of
        Doc s \<Rightarrow> (s, w)
      | Unreadable \<Rightarrow> (default_state, say ErrorLoadingState w)
      | NoFile \<Rightarrow> (default_state, w))"

text \<open>\<open>save_state\<close>: writes the document; a failure to open the file is only printed.\<close>

definition save_state :: "state \<Rightarrow> world \<Rightarrow> world" where
  "save_state s w = (if writable w then w\<lparr>saved := Doc s\<rparr> else say ErrorSavingState w)"

section \<open>The catalog resolver\<close>

text \<open>
  The lines \<open>if "artist_choices" not in state: state["artist_choices"] = {}\<close> and
  \<open>state["artist_choices"][artist_name] = {"id": ..., "name": ...}\<close>.
\<close>

definition remember :: "string \<Rightarrow> artist \<Rightarrow> state \<Rightarrow> state" where
  "remember name a st =
     st\<lparr>artist_choices :=
          Some (AList.update name \<lparr>choice_id = artist_id a, choice_name = artist_name a\<rparr>
                  (case artist_choices st of None \<Rightarrow> [] | Some cs \<Rightarrow> cs))\<rparr>"

text \<open>
  The \<open>while True\<close> loop that asks for the number of the right artist. \<open>input\<close> raises
  \<open>EOFError\<close> when the console has no line left.
\<close>

fun choose_loop ::
  "string \<Rightarrow> state \<Rightarrow> artist list \<Rightarrow> line list \<Rightarrow> world \<Rightarrow> artist reply result \<times> world" where
  "choose_loop name st artists [] w = (Raises EOFError, (say EnterChoicePrompt w)\<lparr>stdin := []\<rparr>)"
| "choose_loop name st artists (l # ls) w =
     (let w1 = (say EnterChoicePrompt w)\<lparr>stdin := ls\<rparr> in
      if is_q l then (Returns PyNone, w1)
      else
        (case as_int l of
           None \<Rightarrow> choose_loop name st artists ls (say EnterNumberOrQ w1)
         | Some n \<Rightarrow>
             (let choice_idx = n - 1 in
              if 0 \<le> choice_idx \<and> choice_idx < int (length artists) then
                (let chosen_artist = artists ! nat choice_idx;
                     w2 = say (Selected (artist_name chosen_artist)) w1
                 in (Returns (Obj chosen_artist),
                     save_state (remember name chosen_artist st) w2))
              else choose_loop name st artists ls (say InvalidChoice w1))))"

text \<open>The numbered list of candidates: \<open>enumerate(artists, 1)\<close> with the follower counts.\<close>

fun list_options :: "nat \<Rightarrow> artist list \<Rightarrow> world \<Rightarrow> world" where
  "list_options i [] w = w"
| "list_options i (a # as) w =
     list_options (Suc i) as
       (say (ArtistOption i (artist_name a)
              (case followers_total a of None \<Rightarrow> 0 | Some n \<Rightarrow> n)) w)"

text \<open>
  \<open>find_artist\<close> from its comment \<open># Search for artists\<close> on, with the state document
  the first part leaves. The payload of the search endpoint is the list
  \<open>results["artists"]["items"]\<close>, empty when a key is missing.
\<close>

definition search_for_artists ::
  "server \<Rightarrow> string \<Rightarrow> string \<Rightarrow> state \<Rightarrow> world \<Rightarrow> artist reply result \<times> world" where
  "search_for_artists srv artist_name' client_token st w =
     (case make_spotify_request (search_api srv) ''search'' client_token ''GET'' None
             (Some [(''q'', Str artist_name'), (''type'', Str ''artist''), (''limit'', Num 10)]) 5 w of
        (Raises e, w1) \<Rightarrow> (Raises e, w1)
      | (Returns results, w1) \<Rightarrow>
          (case results of
             Obj artists \<Rightarrow>
               if artists = [] then (Returns PyNone, say (ArtistNotFound artist_name') w1)
               else if length artists = 1 then
                 (let a = artists ! 0;
                      w2 = say (FoundArtist (artist_name a) (artist_id a)) w1
                  in (Returns (Obj a), save_state (remember artist_name' a st) w2))
               else
                 (let w2 = say (MultipleArtistsFound artist_name') w1;
                      w3 = list_options 1 artists w2
                  in choose_loop artist_name' st artists (stdin w3) w3)
           | EmptyObj \<Rightarrow> (Returns PyNone, say (ArtistNotFound artist_name') w1)
           | PyNone \<Rightarrow> (Returns PyNone, say (ArtistNotFound artist_name') w1)))"

text \<open>
  \<open>find_artist\<close> returns \<open>None\<close> or an artist dictionary. A saved choice for exactly
  this name is checked with one lookup of its id, and what the lookup returns, when
  truthy, is the result. Otherwise the entry is deleted, the state saved, and the search
  follows.
\<close>

definition cached_choice :: "state \<Rightarrow> string \<Rightarrow> artist_choice option" where
  "cached_choice st artist_name' =
     (case artist_choices st of None \<Rightarrow> None | Some cs \<Rightarrow> map_of cs artist_name')"

definition forget :: "string \<Rightarrow> state \<Rightarrow> state" where
  "forget artist_name' st =
     st\<lparr>artist_choices := map_option (AList.delete artist_name') (artist_choices st)\<rparr>"

definition find_artist ::
  "server \<Rightarrow> string \<Rightarrow> string \<Rightarrow> world \<Rightarrow> artist reply result \<times> world" where
  "find_artist srv artist_name' client_token w =
     (case load_state w of
        (st, w0) \<Rightarrow>
          (case cached_choice st artist_name' of
             Some ch \<Rightarrow>
               (let w1 = say (UsingSavedArtist (choice_name ch) (choice_id ch)) w0 in
                case make_spotify_request (artist_api srv) (''artists/'' @ choice_id ch)
                       client_token ''GET'' None None 5 w1 of
                  (Raises e, w2) \<Rightarrow> (Raises e, w2)
                | (Returns artist_data, w2) \<Rightarrow>
                    if truthy artist_data then (Returns artist_data, w2)
                    else
                      (let w3 = say SavedArtistNoLongerValid w2;
                           st' = forget artist_name' st;
                           w4 = save_state st' w3
                       in search_for_artists srv artist_name' client_token st' w4))
           | None \<Rightarrow> search_for_artists srv artist_name' client_token st w0))"











definition get_track_details ::
  "server \<Rightarrow> string \<Rightarrow> string \<Rightarrow> world \<Rightarrow> track reply result \<times> world" where
  "get_track_details srv track_id' client_token w =
     make_spotify_request (track_api srv) (''tracks/'' @ track_id') client_token ''GET''
       None None 5 w"

section \<open>The playlist assembler\<close>

text \<open>
  The duplicate removal of \<open>main\<close>: the loop over \<open>all_tracks\<close> with the set
  \<open>track_ids\<close> of the ids seen and the list \<open>unique_tracks\<close> built so far.
\<close>

fun unique_loop :: "track list \<Rightarrow> string set \<Rightarrow> track list \<Rightarrow> track list" where
  "unique_loop [] track_ids unique_tracks = unique_tracks"
| "unique_loop (t # all_tracks) track_ids unique_tracks =
     (if track_id t \<notin> track_ids then
        unique_loop all_tracks (insert (track_id t) track_ids) (unique_tracks @ [t])
      else unique_loop all_tracks track_ids unique_tracks)"

definition remove_duplicates :: "track list \<Rightarrow> track list" where
  "remove_duplicates all_tracks = unique_loop all_tracks {} []"

text \<open>
  Python's \<open>sorted(xs, key=..., reverse=...)\<close>: a stable sort by the key; with
  \<open>reverse=True\<close> the order is descending and elements with equal keys still keep their
  original order (the list is reversed, sorted stably and reversed again).
\<close>

definition py_sorted :: "('a \<Rightarrow> 'k::linorder) \<Rightarrow> bool \<Rightarrow> 'a list \<Rightarrow> 'a list" where
  "py_sorted key reverse xs =
     (if reverse then rev (sort_key key (rev xs)) else sort_key key xs)"

text \<open>\<open>str.lower\<close>, on ASCII letters.\<close>

definition lower_char :: "char \<Rightarrow> char" where
  "lower_char c =
     (if CHR ''A'' \<le> c \<and> c \<le> CHR ''Z'' then char_of (of_char c + (32::nat)) else c)"

definition lower :: "string \<Rightarrow> string" where
  "lower s = map lower_char s"

text \<open>The sort keys: \<open>x.get('album_release_date', '')\<close> and \<open>x.get('popularity', 0)\<close>.\<close>

definition date_key :: "track \<Rightarrow> string" where
  "date_key x = (case album_release_date x of None \<Rightarrow> [] | Some d \<Rightarrow> d)"

definition popularity_key :: "track \<Rightarrow> int" where
  "popularity_key x = (case popularity x of None \<Rightarrow> 0 | Some p \<Rightarrow> p)"

text \<open>
  The loop of the popularity branch: \<open>enumerate(tracks, 1)\<close>, a progress line every tenth
  track, one detail fetch per track, and the fetched record appended when it is truthy.
\<close>

fun details_loop ::
  "server \<Rightarrow> string \<Rightarrow> nat \<Rightarrow> nat \<Rightarrow> track list \<Rightarrow> track list \<Rightarrow> world
    \<Rightarrow> track list result \<times> world" where
  "details_loop srv client_token i n [] detailed_tracks w = (Returns detailed_tracks, w)"
| "details_loop srv client_token i n (t # tracks) detailed_tracks w =
     (let w1 = (if i mod 10 = 0 then say (ProcessingTrack i n) w else w) in
      case get_track_details srv (track_id t) client_token w1 of
        (Raises e, w2) \<Rightarrow> (Raises e, w2)
      | (Returns detailed_track, w2) \<Rightarrow>
          details_loop srv client_token (Suc i) n tracks
            (case detailed_track of
               Obj d \<Rightarrow> detailed_tracks @ [d]
             | EmptyObj \<Rightarrow> detailed_tracks
             | PyNone \<Rightarrow> detailed_tracks) w2)"

definition sort_tracks ::
  "server \<Rightarrow> track list \<Rightarrow> string \<Rightarrow> string \<Rightarrow> string \<Rightarrow> world \<Rightarrow> track list result \<times> world" where
  "sort_tracks srv tracks sort_method sort_order client_token w =
     (let reverse = (lower sort_order = ''desc'') in
      if sort_method = ''date'' then (Returns (py_sorted date_key reverse tracks), w)
      else if sort_method = ''popularity'' then
        (case details_loop srv client_token 1 (length tracks) tracks []
                (say FetchingPopularity w) of
           (Raises e, w1) \<Rightarrow> (Raises e, w1)
         | (Returns detailed_tracks, w1) \<Rightarrow>
             (Returns (py_sorted popularity_key reverse detailed_tracks), w1))
      else if sort_method = ''name'' then (Returns (py_sorted track_name reverse tracks), w)
      else (Returns tracks, w))"

text \<open>
  \<open>add_tracks_to_playlist\<close>: the loop \<open>for i in range(0, len(track_uris), 100)\<close>, from
  the index \<open>i\<close> on.
\<close>

function add_tracks_loop ::
  "server \<Rightarrow> string \<Rightarrow> string \<Rightarrow> string list \<Rightarrow> nat \<Rightarrow> world \<Rightarrow> bool result \<times> world" where
  "add_tracks_loop srv token playlist_id' track_uris i w =
     (if i < length track_uris then
        (let batch = take 100 (drop i track_uris) in
         case make_spotify_request (add_api srv) (''playlists/'' @ playlist_id' @ ''/tracks'')
                token ''POST'' (Some [(''uris'', Strs batch)]) None 5 w of
           (Raises e, w1) \<Rightarrow> (Raises e, w1)
         | (Returns r, w1) \<Rightarrow>
             if \<not> truthy r then
               (Returns False, say (FailedToAddTracks (i + 1) (i + length batch)) w1)
             else add_tracks_loop srv token playlist_id' track_uris (i + 100) w1)
      else (Returns True, w))"
  by pat_completeness auto
termination
  by (relation "measure (\<lambda>(srv, token, pid, track_uris, i, w). length track_uris - i)") auto

declare add_tracks_loop.simps [simp del]

definition add_tracks_to_playlist ::
  "server \<Rightarrow> string \<Rightarrow> string \<Rightarrow> string list \<Rightarrow> world \<Rightarrow> bool result \<times> world" where
  "add_tracks_to_playlist srv token playlist_id' track_uris w =
     add_tracks_loop srv token playlist_id' track_uris 0 w"

text \<open>
  The last step of \<open>main\<close>, from \<open># Add tracks to playlist\<close> on: nothing follows a failed
  batch but two printed lines.
\<close>

definition main_add_tracks ::
  "server \<Rightarrow> string \<Rightarrow> playlist \<Rightarrow> track list \<Rightarrow> world \<Rightarrow> unit result \<times> world" where
  "main_add_tracks srv auth_token pl sorted_tracks w =
     (let w1 = say (AddingTracks (length sorted_tracks)) w;
          track_uris = map uri sorted_tracks
      in case add_tracks_to_playlist srv auth_token (playlist_id pl) track_uris w1 of
           (Raises e, w2) \<Rightarrow> (Raises e, w2)
         | (Returns success, w2) \<Rightarrow>
             if success then
               (Returns (),
                say (PlaylistCreatedSuccessfully (playlist_url pl) (length sorted_tracks)) w2)
             else (Returns (), say (PlaylistCreatedWithErrors (playlist_url pl)) w2))"

section \<open>The OAuth flow manager\<close>

text \<open>
  One post to the token endpoint, as \<open>refresh_access_token\<close> and \<open>exchange_auth_code\<close>
  make it: a network failure raises (nothing here catches it), a status other than 200
  gives \<open>None\<close>, and a 200 gives the token dictionary.
\<close>

definition post_token ::
  "server \<Rightarrow> (int \<Rightarrow> message) \<Rightarrow> token_request \<Rightarrow> world \<Rightarrow> token_data option result \<times> world" where
  "post_token srv complaint rq w =
     (let w1 = w\<lparr>token_posts := token_posts w @ [rq]\<rparr> in
      case token_api srv (length (token_posts w)) rq of
        NetError e \<Rightarrow> (Raises RequestException, w1)
      | Response st hdr tx js \<Rightarrow>
          if st \<noteq> 200 then (Returns None, say (ResponseText tx) (say (complaint st) w1))
          else (Returns (Some js), w1))"

definition exchange_auth_code ::
  "server \<Rightarrow> string \<Rightarrow> string \<Rightarrow> string \<Rightarrow> string \<Rightarrow> world
    \<Rightarrow> token_data option result \<times> world" where
  "exchange_auth_code srv client_id client_secret auth_code redirect_uri w =
     post_token srv ErrorExchangingCode
       \<lparr>basic_id = client_id, basic_secret = client_secret,
        form = [(''grant_type'', ''authorization_code''), (''code'', auth_code),
                (''redirect_uri'', redirect_uri)]\<rparr> w"

definition refresh_access_token ::
  "server \<Rightarrow> string \<Rightarrow> string \<Rightarrow> string \<Rightarrow> world \<Rightarrow> token_data option result \<times> world" where
  "refresh_access_token srv client_id client_secret refresh_token' w =
     post_token srv ErrorRefreshingToken
       \<lparr>basic_id = client_id, basic_secret = client_secret,
        form = [(''grant_type'', ''refresh_token''), (''refresh_token'', refresh_token')]\<rparr> w"

definition is_local :: "string \<Rightarrow> bool" where
  "is_local host = (lower host = ''localhost'' \<or> lower host = ''127.0.0.1'')"

text \<open>
  \<open>start_callback_server\<close>: for a loopback host a listener is started; every exception
  on the way (no host name, the port taken) is caught and answered with a warning and
  \<open>None\<close>. The result says whether a server object is returned.
\<close>

definition start_callback_server :: "server \<Rightarrow> callback \<Rightarrow> world \<Rightarrow> bool \<times> world" where
  "start_callback_server srv cb w =
     (case cb_hostname cb of
        None \<Rightarrow> (False, say CallbackServerWarning w)
      | Some host \<Rightarrow>
          if is_local host then
            (if bind_ok srv then (True, w\<lparr>listening := True\<rparr>)
             else (False, say CallbackServerWarning w))
          else (False, say (ExternalCallbackNote (cb_url cb)) w))"

definition stop_callback_server :: "bool \<Rightarrow> world \<Rightarrow> world" where
  "stop_callback_server running w = (if running then w\<lparr>listening := False\<rparr> else w)"

definition scope :: string where
  "scope = ''playlist-modify-public playlist-modify-private user-read-private''"

text \<open>
  How \<open>get_user_auth_token\<close> comes by the authorization code. With a loopback callback it
  waits for the listener and stops it; the global \<open>AUTH_CODE\<close> is \<open>None\<close> unless the
  listener ran and received a code. Otherwise it reads the code from the console.
\<close>

definition obtain_auth_code ::
  "server \<Rightarrow> bool \<Rightarrow> bool \<Rightarrow> world \<Rightarrow> string option result \<times> world" where
  "obtain_auth_code srv is_local_callback running w =
     (if is_local_callback then
        (Returns (if running then callback_code srv else None),
         stop_callback_server running (say WaitingForAuthorization w))
      else
        (let w1 = say EnterCodePrompt (say PasteCodeInstructions w) in
         case stdin w1 of
           [] \<Rightarrow> (Raises EOFError, w1)
         | l # ls \<Rightarrow> (Returns (Some (stripped l)), w1\<lparr>stdin := ls\<rparr>)))"

text \<open>
  \<open>get_user_auth_token\<close> from \<open>if not auth_code\<close> on: the exchange of the code, and the
  only write of the tokens to the state store outside the refresh.
\<close>

definition exchange_and_save ::
  "server \<Rightarrow> string \<Rightarrow> string \<Rightarrow> callback \<Rightarrow> state \<Rightarrow> real \<Rightarrow> string option \<Rightarrow> world
    \<Rightarrow> string option result \<times> world" where
  "exchange_and_save srv client_id client_secret cb st current_time auth_code w =
     (case auth_code of
        None \<Rightarrow> (Returns None, say AuthorizationFailedOrTimedOut w)
      | Some code \<Rightarrow>
          if code = [] then (Returns None, say AuthorizationFailedOrTimedOut w)
          else
            (case exchange_auth_code srv client_id client_secret code (cb_url cb) w of
               (Raises e, w1) \<Rightarrow> (Raises e, w1)
             | (Returns None, w1) \<Rightarrow> (Returns None, say FailedToGetAccessToken w1)
             | (Returns (Some token_data), w1) \<Rightarrow>
                 (case td_refresh_token token_data of
                    None \<Rightarrow> (Raises KeyError, w1)
                  | Some rt \<Rightarrow>
                      (Returns (Some (td_access_token token_data)),
                       save_state
                         (st\<lparr>access_token := Some (td_access_token token_data),
                             refresh_token := Some rt,
                             expires_at :=
                               Some (current_time + real_of_int (td_expires_in token_data))\<rparr>)
                         w1))))"

text \<open>
  \<open>get_user_auth_token\<close> from \<open># Parse the callback URL\<close> on, with the state document
  and the time read at the start: the full interactive flow.
\<close>

definition authorize ::
  "server \<Rightarrow> string \<Rightarrow> string \<Rightarrow> callback \<Rightarrow> state \<Rightarrow> real \<Rightarrow> world
    \<Rightarrow> string option result \<times> world" where
  "authorize srv client_id client_secret cb st current_time w =
     (case cb_hostname cb of
        None \<Rightarrow> (Raises AttributeError, w)
      | Some host \<Rightarrow>
          (case start_callback_server srv cb w of
             (running, w1) \<Rightarrow>
               (let auth_url = \<lparr>au_client_id = client_id, au_redirect_uri = cb_url cb,
                                 au_scope = scope, au_state = nonce srv\<rparr>;
                    w2 = say OpeningBrowser w1;
                    w3 = w2\<lparr>browser := browser w2 @ [auth_url]\<rparr>
                in case obtain_auth_code srv (is_local host) running w3 of
                     (Raises e, w4) \<Rightarrow> (Raises e, w4)
                   | (Returns auth_code, w4) \<Rightarrow>
                       exchange_and_save srv client_id client_secret cb st current_time
                         auth_code w4)))"

text \<open>
  \<open>get_user_auth_token\<close> returns the access token, or \<open>None\<close> when the authorization
  failed.
\<close>

definition token_still_valid :: "state \<Rightarrow> real \<Rightarrow> bool" where
  "token_still_valid st current_time =
     (case (access_token st, expires_at st) of
        (Some a, Some e) \<Rightarrow> e > current_time + 120
      | _ \<Rightarrow> False)"

definition get_user_auth_token ::
  "server \<Rightarrow> string \<Rightarrow> string \<Rightarrow> callback \<Rightarrow> world \<Rightarrow> string option result \<times> world" where
  "get_user_auth_token srv client_id client_secret cb w =
     (case load_state w of
        (st, w0) \<Rightarrow>
          (let current_time = now srv in
           if token_still_valid st current_time then
             (Returns (access_token st), say UsingSavedAccessToken w0)
           else
             (case refresh_token st of
                Some rt \<Rightarrow>
                  (case refresh_access_token srv client_id client_secret rt
                          (say RefreshingAccessToken w0) of
                     (Raises e, w1) \<Rightarrow> (Raises e, w1)
                   | (Returns (Some token_data), w1) \<Rightarrow>
                       (let st' = st\<lparr>access_token := Some (td_access_token token_data),
                                      expires_at :=
                                        Some (current_time + real_of_int (td_expires_in token_data)),
                                      refresh_token :=
                                        (case td_refresh_token token_data of
                                           Some rt' \<Rightarrow> Some rt'
                                         | None \<Rightarrow> refresh_token st)\<rparr>
                        in (Returns (access_token st'), save_state st' w1))
                   | (Returns None, w1) \<Rightarrow>
                       authorize srv client_id client_secret cb st current_time w1)
              | None \<Rightarrow> authorize srv client_id client_secret cb st current_time w0)))"

section \<open>Predicates used in the statements\<close>



text \<open>The track at index \<open>i\<close> is the first of the list with its id.\<close>

definition first_occurrence :: "track list \<Rightarrow> nat \<Rightarrow> bool" where
  "first_occurrence all_tracks i =
     (\<forall>j<i. track_id (all_tracks ! j) \<noteq> track_id (all_tracks ! i))"

section \<open>Data for the examples\<close>

text \<open>The world at the start of a run, with no state file.\<close>

definition fresh_world :: world where
  "fresh_world = \<lparr>requests = [], token_posts = [], sleeps = [], printed = [], saved = NoFile,
     writable = True, stdin = [], browser = [], listening = False\<rparr>"

text \<open>A service that cannot be reached: every request fails in the network.\<close>

definition offline :: server where
  "offline =
     \<lparr>artist_api = (\<lambda>n q. NetError ''offline''), search_api = (\<lambda>n q. NetError ''offline''),
      albums_api = (\<lambda>n q. NetError ''offline''), tracks_api = (\<lambda>n q. NetError ''offline''),
      track_api = (\<lambda>n q. NetError ''offline''), add_api = (\<lambda>n q. NetError ''offline''),
      token_api = (\<lambda>n q. NetError ''offline''), now = 0, bind_ok = True,
      callback_code = None, nonce = ''nonce''\<rparr>"

text \<open>A track for the examples.\<close>

definition song :: "string \<Rightarrow> string \<Rightarrow> string \<Rightarrow> track" where
  "song i n d = \<lparr>track_id = i, track_name = n, uri = ''spotify:track:'' @ i, track_artists = [],
     album_release_date = Some d, popularity = None\<rparr>"



text \<open>Data for the examples of the OAuth flow.\<close>

definition local_callback :: callback where
  "local_callback = \<lparr>cb_url = ''http://localhost:8888/callback'', cb_hostname = Some ''localhost''\<rparr>"

definition stale_state :: state where
  "stale_state = \<lparr>artist_choices = Some [], access_token = Some ''old_token'',
     refresh_token = Some ''old_refresh'', expires_at = Some 2120\<rparr>"

definition denying :: server where
  "denying = offline\<lparr>
     token_api := (\<lambda>n q. Response 400 Absent ''invalid_grant''
                    \<lparr>td_access_token = [], td_expires_in = 0, td_refresh_token = None\<rparr>),
     now := 2000, callback_code := Some ''code''\<rparr>"


text \<open>
  A service whose successful answers have no body, and a state file that holds a choice
  for the name of the repository's tests.
\<close>

definition hollow :: server where
  "hollow = offline\<lparr>
     artist_api := (\<lambda>n q. Response 200 Absent []
                     \<lparr>artist_id = [], artist_name = [], followers_total = None\<rparr>),
     search_api := (\<lambda>n q. Response 200 Absent [] []),
     add_api := (\<lambda>n q. Response 201 Absent [] [])\<rparr>"

definition test_choice :: artist_choice where
  "test_choice = \<lparr>choice_id = ''test_id_123'', choice_name = ''Test Artist Official''\<rparr>"

definition cached_world :: world where
  "cached_world = fresh_world\<lparr>saved := Doc (default_state\<lparr>artist_choices :=
     Some [(''Test Artist'', test_choice)]\<rparr>)\<rparr>"

text \<open>The artist of the repository's tests, and a service that knows this one artist.\<close>

definition test_artist :: artist where
  "test_artist = \<lparr>artist_id = ''test_id_123'', artist_name = ''Test Artist Official'',
     followers_total = Some 1000\<rparr>"

definition catalog :: server where
  "catalog = offline\<lparr>
     artist_api := (\<lambda>n q. Response 200 Absent ''{id: test_id_123}'' test_artist),
     search_api := (\<lambda>n q. Response 200 Absent ''{artists: {items: [...]}}'' [test_artist])\<rparr>"

text \<open>
  The batches \<open>track_uris[i:i+100]\<close> for \<open>i\<close> in \<open>range(0, len(track_uris), 100)\<close>, in
  order.
\<close>

definition batches :: "string list \<Rightarrow> string list list" where
  "batches track_uris =
     map (\<lambda>k. take 100 (drop (100 * k) track_uris)) [0..<(length track_uris + 99) div 100]"

text \<open>The submission of one batch: the call of the wrapper in the loop.\<close>

definition submit_batch ::
  "server \<Rightarrow> string \<Rightarrow> string \<Rightarrow> string list \<Rightarrow> world \<Rightarrow> string reply result \<times> world" where
  "submit_batch srv token playlist_id' batch w =
     make_spotify_request (add_api srv) (''playlists/'' @ playlist_id' @ ''/tracks'') token
       ''POST'' (Some [(''uris'', Strs batch)]) None 5 w"

text \<open>
  The world after the batches of a list have been submitted one after the other, each
  with a truthy result; \<open>None\<close> when one of them fails or raises.
\<close>

fun submit_all ::
  "server \<Rightarrow> string \<Rightarrow> string \<Rightarrow> string list list \<Rightarrow> world \<Rightarrow> world option" where
  "submit_all srv token playlist_id' [] w = Some w"
| "submit_all srv token playlist_id' (b # bs) w =
     (case submit_batch srv token playlist_id' b w of
        (Raises e, w1) \<Rightarrow> None
      | (Returns r, w1) \<Rightarrow>
          if truthy r then submit_all srv token playlist_id' bs w1 else None)"

text \<open>
  A service that accepts the first post to a playlist and fails on every later one, and
  a list of 101 track URIs.
\<close>

definition flaky :: server where
  "flaky = offline\<lparr>add_api := (\<lambda>n q.
     if n = 0 then Response 201 Absent ''{snapshot_id: s1}'' ''s1''
     else Response 500 Absent ''Server Error'' [])\<rparr>"

definition many_uris :: "string list" where
  "many_uris = replicate 100 ''spotify:track:a'' @ [''spotify:track:b'']"










text \<open>
  What \<open>get_track_details\<close> returns for the tracks of a list, fetched one after the other
  as the popularity branch of \<open>sort_tracks\<close> does (with its progress lines); \<open>None\<close> when
  one of the calls raises.
\<close>

fun detail_replies ::
  "server \<Rightarrow> string \<Rightarrow> nat \<Rightarrow> nat \<Rightarrow> track list \<Rightarrow> world \<Rightarrow> (track reply list \<times> world) option" where
  "detail_replies srv client_token i n [] w = Some ([], w)"
| "detail_replies srv client_token i n (t # tracks) w =
     (case get_track_details srv (track_id t) client_token
             (if i mod 10 = 0 then say (ProcessingTrack i n) w else w) of
        (Raises e, w1) \<Rightarrow> None
      | (Returns r, w1) \<Rightarrow>
          (case detail_replies srv client_token (Suc i) n tracks w1 of
             None \<Rightarrow> None
           | Some (rs, w2) \<Rightarrow> Some (r # rs, w2)))"

text \<open>The records among a list of replies: the replies that are truthy.\<close>

fun records :: "'a reply list \<Rightarrow> 'a list" where
  "records [] = []"
| "records (Obj d # rs) = d # records rs"
| "records (EmptyObj # rs) = records rs"
| "records (PyNone # rs) = records rs"

text \<open>
  A service that has the details of the tracks 1 and 3, with their popularity and without
  any \<open>album_release_date\<close>, and answers 404 for every other track.
\<close>

definition detail :: "string \<Rightarrow> string \<Rightarrow> int \<Rightarrow> track" where
  "detail i n p = \<lparr>track_id = i, track_name = n, uri = ''spotify:track:'' @ i, track_artists = [],
     album_release_date = None, popularity = Some p\<rparr>"

definition charts :: server where
  "charts = offline\<lparr>track_api := (\<lambda>n q.
     if url q = SPOTIFY_API_BASE @ ''/tracks/1'' then
       Response 200 Absent ''{id: 1, popularity: 80}'' (detail ''1'' ''Old Track'' 80)
     else if url q = SPOTIFY_API_BASE @ ''/tracks/3'' then
       Response 200 Absent ''{id: 3, popularity: 10}'' (detail ''3'' ''Middle Track'' 10)
     else Response 404 Absent ''not found'' (detail [] [] 0))\<rparr>"

definition three_songs :: "track list" where
  "three_songs = [song ''1'' ''Old Track'' ''2010-01-01'', song ''2'' ''New Track'' ''2023-01-01'',
     song ''3'' ''Middle Track'' ''2015-01-01'']"

section \<open>Properties\<close>

subsection \<open>The retry loop\<close>











subsection \<open>What the small steps leave alone\<close>

lemma say_fields [simp]:
  "requests (say m w) = requests w" "token_posts (say m w) = token_posts w"
  "sleeps (say m w) = sleeps w" "saved (say m w) = saved w" "writable (say m w) = writable w"
  "stdin (say m w) = stdin w" "browser (say m w) = browser w"
  "listening (say m w) = listening w" "printed (say m w) = printed w @ [m]"
  by (simp_all add: say_def)

lemma save_state_fields [simp]:
  "requests (save_state s w) = requests w" "token_posts (save_state s w) = token_posts w"
  "sleeps (save_state s w) = sleeps w" "writable (save_state s w) = writable w"
  "stdin (save_state s w) = stdin w" "browser (save_state s w) = browser w"
  "listening (save_state s w) = listening w"
  by (simp_all add: save_state_def)

lemma load_state_fields [simp]:
  "requests (snd (load_state w)) = requests w" "token_posts (snd (load_state w)) = token_posts w"
  "sleeps (snd (load_state w)) = sleeps w" "saved (snd (load_state w)) = saved w"
  "writable (snd (load_state w)) = writable w" "stdin (snd (load_state w)) = stdin w"
  "browser (snd (load_state w)) = browser w" "listening (snd (load_state w)) = listening w"
  by (simp_all add: load_state_def split: state_file.splits)

lemma start_callback_server_fields [simp]:
  "requests (snd (start_callback_server srv cb w)) = requests w"
  "token_posts (snd (start_callback_server srv cb w)) = token_posts w"
  "saved (snd (start_callback_server srv cb w)) = saved w"
  "stdin (snd (start_callback_server srv cb w)) = stdin w"
  "browser (snd (start_callback_server srv cb w)) = browser w"
  by (simp_all add: start_callback_server_def split: option.splits)

lemma stop_callback_server_fields [simp]:
  "requests (stop_callback_server b w) = requests w"
  "token_posts (stop_callback_server b w) = token_posts w"
  "saved (stop_callback_server b w) = saved w"
  "stdin (stop_callback_server b w) = stdin w"
  "browser (stop_callback_server b w) = browser w"
  by (simp_all add: stop_callback_server_def)

subsection \<open>The user token\<close>

lemma post_token_cases:
  assumes "post_token srv complaint rq w = (r, w')"
  shows "token_posts w' = token_posts w @ [rq] \<and> saved w' = saved w \<and> requests w' = requests w \<and>
         (case r of
            Returns (Some td) \<Rightarrow>
              (\<exists>hdr tx. token_api srv (length (token_posts w)) rq = Response 200 hdr tx td)
          | Returns None \<Rightarrow>
              (\<exists>st hdr tx td. token_api srv (length (token_posts w)) rq = Response st hdr tx td
                 \<and> st \<noteq> 200)
          | Raises e \<Rightarrow> (\<exists>msg. token_api srv (length (token_posts w)) rq = NetError msg))"
  using assms
  by (cases "token_api srv (length (token_posts w)) rq")
     (auto simp: post_token_def Let_def split: if_splits)

lemma obtain_auth_code_fields:
  assumes "obtain_auth_code srv loc running w = (r, w')"
  shows "requests w' = requests w" "token_posts w' = token_posts w" "saved w' = saved w"
  using assms
  by (auto simp: obtain_auth_code_def Let_def split: if_splits list.splits)

lemma exchange_and_save_cases:
  assumes "exchange_and_save srv client_id client_secret cb st current_time auth_code w = (r, w')"
  shows "requests w' = requests w \<and> (\<exists>ps. token_posts w' = token_posts w @ ps) \<and>
         (case r of
            Returns (Some a) \<Rightarrow>
              (\<exists>rq hdr tx td. token_posts w' = token_posts w @ [rq] \<and>
                 map_of (form rq) ''grant_type'' = Some ''authorization_code'' \<and>
                 token_api srv (length (token_posts w)) rq = Response 200 hdr tx td \<and>
                 a = td_access_token td)
          | Returns None \<Rightarrow> saved w' = saved w
          | Raises e \<Rightarrow> saved w' = saved w)"
proof (cases "auth_code = None \<or> auth_code = Some []")
  case True
  then show ?thesis using assms by (auto simp: exchange_and_save_def)
next
  case False
  then obtain code where code: "auth_code = Some code" "code \<noteq> []"
    by auto
  obtain r1 w1 where ex:
    "exchange_auth_code srv client_id client_secret code (cb_url cb) w = (r1, w1)"
    by (cases "exchange_auth_code srv client_id client_secret code (cb_url cb) w")
  note pt = post_token_cases [OF ex [unfolded exchange_auth_code_def]]
  have "(r, w') =
      (case r1 of
         Raises e \<Rightarrow> (Raises e, w1)
       | Returns None \<Rightarrow> (Returns None, say FailedToGetAccessToken w1)
       | Returns (Some token_data) \<Rightarrow>
           (case td_refresh_token token_data of
              None \<Rightarrow> (Raises KeyError, w1)
            | Some rt \<Rightarrow>
                (Returns (Some (td_access_token token_data)),
                 save_state
                   (st\<lparr>access_token := Some (td_access_token token_data),
                       refresh_token := Some rt,
                       expires_at :=
                         Some (current_time + real_of_int (td_expires_in token_data))\<rparr>)
                   w1)))"
    using assms by (simp add: exchange_and_save_def code ex split: result.splits option.splits)
  then show ?thesis
    using pt by (auto split: result.splits option.splits)
qed

lemma authorize_cases:
  assumes "authorize srv client_id client_secret cb st current_time w = (r, w')"
  shows "requests w' = requests w \<and> (\<exists>ps. token_posts w' = token_posts w @ ps) \<and>
         (case r of
            Returns (Some a) \<Rightarrow>
              (\<exists>rq hdr tx td. token_posts w' = token_posts w @ [rq] \<and>
                 map_of (form rq) ''grant_type'' = Some ''authorization_code'' \<and>
                 token_api srv (length (token_posts w)) rq = Response 200 hdr tx td \<and>
                 a = td_access_token td)
          | Returns None \<Rightarrow> saved w' = saved w
          | Raises e \<Rightarrow> saved w' = saved w)"
proof (cases "cb_hostname cb")
  case None
  then show ?thesis using assms by (auto simp: authorize_def)
next
  case (Some host)
  obtain running w1 where start: "start_callback_server srv cb w = (running, w1)"
    by (cases "start_callback_server srv cb w")
  have w1: "requests w1 = requests w" "token_posts w1 = token_posts w" "saved w1 = saved w"
    using start_callback_server_fields [of srv cb w] unfolding start by simp_all
  let ?w3 = "(say OpeningBrowser w1)\<lparr>browser := browser w1 @
      [\<lparr>au_client_id = client_id, au_redirect_uri = cb_url cb, au_scope = scope,
        au_state = nonce srv\<rparr>]\<rparr>"
  obtain code w4 where step: "obtain_auth_code srv (is_local host) running ?w3 = (code, w4)"
    by (cases "obtain_auth_code srv (is_local host) running ?w3")
  have w4: "requests w4 = requests w" "token_posts w4 = token_posts w" "saved w4 = saved w"
    using obtain_auth_code_fields [OF step] w1 by simp_all
  show ?thesis
  proof (cases code)
    case (Raises e)
    then have "r = Raises e" "w' = w4"
      using assms unfolding authorize_def Some start by (simp_all add: Let_def step)
    then show ?thesis
      using w4 by simp
  next
    case (Returns auth_code)
    then have "exchange_and_save srv client_id client_secret cb st current_time auth_code w4 = (r, w')"
      using assms unfolding authorize_def Some start by (simp add: Let_def step)
    from exchange_and_save_cases [OF this] show ?thesis
      unfolding w4 .
  qed
qed

lemma get_user_auth_token_valid:
  assumes "load_state w = (st, w0)" "token_still_valid st (now srv)"
  shows "get_user_auth_token srv client_id client_secret cb w =
           (Returns (access_token st), say UsingSavedAccessToken w0)"
  using assms by (simp add: get_user_auth_token_def)

lemma get_user_auth_token_not_valid:
  assumes "load_state w = (st, w0)" "\<not> token_still_valid st (now srv)"
      and "get_user_auth_token srv client_id client_secret cb w = (r, w')"
  shows "requests w' = requests w \<and>
         (case refresh_token st of
            None \<Rightarrow> (r, w') = authorize srv client_id client_secret cb st (now srv) w0
          | Some rt \<Rightarrow>
              (\<exists>ps. token_posts w' = token_posts w @
                 \<lparr>basic_id = client_id, basic_secret = client_secret,
                  form = [(''grant_type'', ''refresh_token''), (''refresh_token'', rt)]\<rparr> # ps)) \<and>
         (case r of
            Returns (Some a) \<Rightarrow>
              (\<exists>n hdr tx td. length (token_posts w) \<le> n \<and> n < length (token_posts w') \<and>
                 map_of (form (token_posts w' ! n)) ''grant_type'' \<in>
                   {Some ''refresh_token'', Some ''authorization_code''} \<and>
                 token_api srv n (token_posts w' ! n) = Response 200 hdr tx td \<and>
                 a = td_access_token td)
          | Returns None \<Rightarrow> saved w' = saved w
          | Raises e \<Rightarrow> saved w' = saved w)"
proof -
  have w0: "requests w0 = requests w" "token_posts w0 = token_posts w" "saved w0 = saved w"
    using load_state_fields [of w] unfolding assms(1) by simp_all
  show ?thesis
  proof (cases "refresh_token st")
    case None
    then have run: "authorize srv client_id client_secret cb st (now srv) w0 = (r, w')"
      using assms by (simp add: get_user_auth_token_def)
    from authorize_cases [OF run] obtain ps where
      ps: "requests w' = requests w0" "token_posts w' = token_posts w0 @ ps"
      by blast
    have "case r of
            Returns (Some a) \<Rightarrow>
              (\<exists>n hdr tx td. length (token_posts w) \<le> n \<and> n < length (token_posts w') \<and>
                 map_of (form (token_posts w' ! n)) ''grant_type'' \<in>
                   {Some ''refresh_token'', Some ''authorization_code''} \<and>
                 token_api srv n (token_posts w' ! n) = Response 200 hdr tx td \<and>
                 a = td_access_token td)
          | Returns None \<Rightarrow> saved w' = saved w
          | Raises e \<Rightarrow> saved w' = saved w"
    proof (cases r)
      case (Raises e)
      then show ?thesis using authorize_cases [OF run] w0 by simp
    next
      case (Returns v)
      show ?thesis
      proof (cases v)
        case None
        then show ?thesis using authorize_cases [OF run] w0 Returns by simp
      next
        case (Some a)
        then obtain rq hdr tx td where
          "token_posts w' = token_posts w @ [rq]"
          "map_of (form rq) ''grant_type'' = Some ''authorization_code''"
          "token_api srv (length (token_posts w)) rq = Response 200 hdr tx td"
          "a = td_access_token td"
          using authorize_cases [OF run] w0 Returns by auto
        then have "length (token_posts w) \<le> length (token_posts w) \<and>
             length (token_posts w) < length (token_posts w') \<and>
             map_of (form (token_posts w' ! length (token_posts w))) ''grant_type'' \<in>
                   {Some ''refresh_token'', Some ''authorization_code''} \<and>
             token_api srv (length (token_posts w)) (token_posts w' ! length (token_posts w)) =
               Response 200 hdr tx td \<and> a = td_access_token td"
          by simp
        then show ?thesis
          unfolding Returns Some by (simp only: result.case option.case) blast
      qed
    qed
    then show ?thesis
      using None run ps w0 by simp
  next
    case (Some rt)
    let ?rq = "\<lparr>basic_id = client_id, basic_secret = client_secret,
                form = [(''grant_type'', ''refresh_token''), (''refresh_token'', rt)]\<rparr>"
    obtain r1 w1 where rf: "post_token srv ErrorRefreshingToken ?rq (say RefreshingAccessToken w0) = (r1, w1)"
      by (cases "post_token srv ErrorRefreshingToken ?rq (say RefreshingAccessToken w0)")
    note pt = post_token_cases [OF rf]
    have w1: "token_posts w1 = token_posts w @ [?rq]" "saved w1 = saved w" "requests w1 = requests w"
      using pt w0 by simp_all
    show ?thesis
    proof (cases r1)
      case (Raises e)
      then have "r = Raises e" "w' = w1"
        using assms Some rf by (simp_all add: get_user_auth_token_def refresh_access_token_def)
      then show ?thesis using w1 Some by simp
    next
      case (Returns v)
      show ?thesis
      proof (cases v)
        case None
        then have run: "authorize srv client_id client_secret cb st (now srv) w1 = (r, w')"
          using assms Some rf Returns
          by (simp add: get_user_auth_token_def refresh_access_token_def)
        from authorize_cases [OF run] obtain ps where
          ps: "requests w' = requests w1" "token_posts w' = token_posts w1 @ ps"
          by blast
        have "case r of
            Returns (Some a) \<Rightarrow>
              (\<exists>n hdr tx td. length (token_posts w) \<le> n \<and> n < length (token_posts w') \<and>
                 map_of (form (token_posts w' ! n)) ''grant_type'' \<in>
                   {Some ''refresh_token'', Some ''authorization_code''} \<and>
                 token_api srv n (token_posts w' ! n) = Response 200 hdr tx td \<and>
                 a = td_access_token td)
          | Returns None \<Rightarrow> saved w' = saved w
          | Raises e \<Rightarrow> saved w' = saved w"
        proof (cases r)
          case (Raises e)
          then show ?thesis using authorize_cases [OF run] w1 by simp
        next
          case R: (Returns v')
          show ?thesis
          proof (cases v')
            case None
            then show ?thesis using authorize_cases [OF run] w1 R by simp
          next
            case (Some a)
            then obtain rq hdr tx td where *:
              "token_posts w' = token_posts w1 @ [rq]"
              "map_of (form rq) ''grant_type'' = Some ''authorization_code''"
              "token_api srv (length (token_posts w1)) rq = Response 200 hdr tx td"
              "a = td_access_token td"
              using authorize_cases [OF run] R by auto
            have "length (token_posts w) \<le> Suc (length (token_posts w)) \<and>
                 Suc (length (token_posts w)) < length (token_posts w') \<and>
                 map_of (form (token_posts w' ! Suc (length (token_posts w)))) ''grant_type'' \<in>
                   {Some ''refresh_token'', Some ''authorization_code''} \<and>
                 token_api srv (Suc (length (token_posts w))) (token_posts w' ! Suc (length (token_posts w))) =
                   Response 200 hdr tx td \<and> a = td_access_token td"
              using * w1 by (simp add: nth_append)
            then show ?thesis
              unfolding R Some by (simp only: result.case option.case) blast
          qed
        qed
        then show ?thesis
          using Some ps w1 by simp
      next
        case (Some td)
        then have r: "r = Returns (Some (td_access_token td))"
          and w': "token_posts w' = token_posts w1" "requests w' = requests w1"
          using assms \<open>refresh_token st = Some rt\<close> rf Returns
          by (auto simp: get_user_auth_token_def refresh_access_token_def Let_def)
        obtain hdr tx where ok: "token_api srv (length (token_posts w)) ?rq = Response 200 hdr tx td"
          using pt Returns Some w0 by auto
        have "length (token_posts w) \<le> length (token_posts w) \<and>
             length (token_posts w) < length (token_posts w') \<and>
             map_of (form (token_posts w' ! length (token_posts w))) ''grant_type'' \<in>
                   {Some ''refresh_token'', Some ''authorization_code''} \<and>
             token_api srv (length (token_posts w)) (token_posts w' ! length (token_posts w)) =
               Response 200 hdr tx td \<and> td_access_token td = td_access_token td"
          using w' w1 ok by simp
        then have "\<exists>n hdr tx td'. length (token_posts w) \<le> n \<and> n < length (token_posts w') \<and>
                 map_of (form (token_posts w' ! n)) ''grant_type'' \<in>
                   {Some ''refresh_token'', Some ''authorization_code''} \<and>
                 token_api srv n (token_posts w' ! n) = Response 200 hdr tx td' \<and>
                 td_access_token td = td_access_token td'"
          by blast
        then show ?thesis
          using r w' w1 \<open>refresh_token st = Some rt\<close> by simp
      qed
    qed
  qed
qed


text \<open>
  Claim C2. Whatever \<open>get_user_auth_token\<close> does, when it returns \<open>None\<close> (and likewise
  when an exception leaves it) the state file is what it was before the call. The file
  changes only when some post to the token endpoint made during the call, a refresh
  or an exchange of an authorization code, was answered with status 200, and then the
  call returns the access token of that answer.
\<close>

theorem get_user_auth_token_failure_keeps_state:
  assumes "get_user_auth_token srv client_id client_secret cb w = (r, w')"
  shows "(r = Returns None \<longrightarrow> saved w' = saved w) \<and>
         (\<forall>e. r = Raises e \<longrightarrow> saved w' = saved w) \<and>
         (saved w' \<noteq> saved w \<longrightarrow>
            (\<exists>n hdr tx td. length (token_posts w) \<le> n \<and> n < length (token_posts w') \<and>
               map_of (form (token_posts w' ! n)) ''grant_type'' \<in>
                 {Some ''refresh_token'', Some ''authorization_code''} \<and>
               token_api srv n (token_posts w' ! n) = Response 200 hdr tx td \<and>
               r = Returns (Some (td_access_token td))))"
proof -
  obtain st w0 where load: "load_state w = (st, w0)"
    by (cases "load_state w")
  have w0: "saved w0 = saved w"
    using load_state_fields [of w] unfolding load by simp
  show ?thesis
  proof (cases "token_still_valid st (now srv)")
    case True
    have "w' = say UsingSavedAccessToken w0"
      using get_user_auth_token_valid [OF load True, of client_id client_secret cb] assms by simp
    then show ?thesis using w0 by simp
  next
    case False
    note c = get_user_auth_token_not_valid [OF load False assms]
    show ?thesis
    proof (cases r)
      case (Raises e)
      then show ?thesis using c by simp
    next
      case (Returns v)
      show ?thesis
      proof (cases v)
        case None
        then show ?thesis using c Returns by simp
      next
        case (Some a)
        then show ?thesis using c Returns by auto
      qed
    qed
  qed
qed


text \<open>
  A saved token that expires in exactly 120 seconds, a refresh that is refused and an
  exchange that is refused: the call returns \<open>None\<close> after both posts, and the file still
  holds the old document.
\<close>

theorem get_user_auth_token_failure_keeps_state_witness:
  "fst (get_user_auth_token denying ''id'' ''secret'' local_callback
          (fresh_world\<lparr>saved := Doc stale_state\<rparr>)) = Returns None \<and>
   saved (snd (get_user_auth_token denying ''id'' ''secret'' local_callback
          (fresh_world\<lparr>saved := Doc stale_state\<rparr>))) = Doc stale_state \<and>
   map (\<lambda>q. map_of (form q) ''grant_type'')
     (token_posts (snd (get_user_auth_token denying ''id'' ''secret'' local_callback
          (fresh_world\<lparr>saved := Doc stale_state\<rparr>)))) =
     [Some ''refresh_token'', Some ''authorization_code'']"
proof -
  let ?run = "get_user_auth_token denying ''id'' ''secret'' local_callback
          (fresh_world\<lparr>saved := Doc stale_state\<rparr>)"
  have r: "fst ?run = Returns None"
    by (simp add: get_user_auth_token_def load_state_def fresh_world_def stale_state_def
        token_still_valid_def denying_def offline_def refresh_access_token_def post_token_def
        authorize_def local_callback_def start_callback_server_def is_local_def lower_def
        lower_char_def obtain_auth_code_def exchange_and_save_def exchange_auth_code_def
        stop_callback_server_def say_def Let_def)
  have p: "map (\<lambda>q. map_of (form q) ''grant_type'') (token_posts (snd ?run)) =
     [Some ''refresh_token'', Some ''authorization_code'']"
    by (simp add: get_user_auth_token_def load_state_def fresh_world_def stale_state_def
        token_still_valid_def denying_def offline_def refresh_access_token_def post_token_def
        authorize_def local_callback_def start_callback_server_def is_local_def lower_def
        lower_char_def obtain_auth_code_def exchange_and_save_def exchange_auth_code_def
        stop_callback_server_def say_def Let_def)
  have "?run = (fst ?run, snd ?run)"
    by simp
  from get_user_auth_token_failure_keeps_state [OF this] r
  have "saved (snd ?run) = saved (fresh_world\<lparr>saved := Doc stale_state\<rparr>)"
    by blast
  then show ?thesis
    using r p by simp
qed


subsection \<open>What one call of the wrapper does to the world\<close>

lemma request_loop_over:
  "m < r \<Longrightarrow> request_loop api rq m r w = (Returns PyNone, say (MaximumRetriesExceeded m) w)"
  by (subst request_loop.simps) simp

lemma request_loop_answered:
  assumes "r \<le> m" "api (length (requests w)) q = Response st hdr tx js" "st \<noteq> 429"
  shows "request_loop api (Some q) m r w =
         (if st \<ge> 400 then
            (Returns PyNone,
             say (ResponseText tx) (say (ErrorMakingRequest st) (w\<lparr>requests := requests w @ [q]\<rparr>)))
          else (Returns (if tx \<noteq> [] then Obj js else EmptyObj), w\<lparr>requests := requests w @ [q]\<rparr>))"
  using assms by (subst request_loop.simps) simp

lemma extend_replicate:
  assumes "\<exists>c\<le>k. xs = (ys @ [q]) @ replicate c q"
  shows "\<exists>c\<le>Suc k. 1 \<le> c \<and> xs = ys @ replicate c q"
proof -
  from assms obtain c where "c \<le> k" "xs = (ys @ [q]) @ replicate c q"
    by blast
  then have "Suc c \<le> Suc k \<and> 1 \<le> Suc c \<and> xs = ys @ replicate (Suc c) q"
    by (simp add: replicate_app_Cons_same)
  then show ?thesis by blast
qed

lemma request_loop_effects:
  assumes "request_loop api (Some q) m r w = (res, w')" "k = nat (m + 1 - r)"
  shows "(\<exists>c\<le>k. (0 < k \<longrightarrow> 1 \<le> c) \<and> requests w' = requests w @ replicate c q) \<and>
         saved w' = saved w \<and> writable w' = writable w \<and> stdin w' = stdin w \<and>
         token_posts w' = token_posts w \<and> browser w' = browser w \<and> listening w' = listening w"
  using assms
proof (induction k arbitrary: r w)
  case 0
  then have "m < r" by linarith
  then have "w' = say (MaximumRetriesExceeded m) w"
    using "0.prems"(1) by (simp add: request_loop_over)
  then show ?case
    by simp
next
  case (Suc k)
  then have le: "r \<le> m" and k: "k = nat (m + 1 - (r + 1))"
    by linarith+
  let ?w1 = "w\<lparr>requests := requests w @ [q]\<rparr>"
  have goal_from_rec: ?case
    if "request_loop api (Some q) m (r + 1) v = (res, w')"
      and v: "requests v = requests w @ [q]" "saved v = saved w" "writable v = writable w"
        "stdin v = stdin w" "token_posts v = token_posts w" "browser v = browser w"
        "listening v = listening w"
    for v
  proof -
    from Suc.IH [OF that(1) k]
    have a: "\<exists>c\<le>k. requests w' = (requests w @ [q]) @ replicate c q"
      and b: "saved w' = saved w \<and> writable w' = writable w \<and> stdin w' = stdin w \<and>
         token_posts w' = token_posts w \<and> browser w' = browser w \<and> listening w' = listening w"
      unfolding v by blast+
    from extend_replicate [OF a] b show ?thesis by blast
  qed
  have goal_from_stop: ?case
    if "requests w' = requests w @ [q]" "saved w' = saved w" "writable w' = writable w"
        "stdin w' = stdin w" "token_posts w' = token_posts w" "browser w' = browser w"
        "listening w' = listening w"
  proof -
    have "(1::nat) \<le> Suc k \<and> (0 < Suc k \<longrightarrow> (1::nat) \<le> 1) \<and> requests w' = requests w @ replicate 1 q"
      using that by simp
    then show ?thesis using that by blast
  qed
  show ?case
  proof (cases "api (length (requests w)) q")
    case (NetError e)
    show ?thesis
    proof (cases "r < m")
      case True
      let ?v = "(say (Retrying (r + 1) m) (say (RequestError e) ?w1))
                  \<lparr>sleeps := sleeps (say (Retrying (r + 1) m) (say (RequestError e) ?w1)) @ [2]\<rparr>"
      have "request_loop api (Some q) m r w = request_loop api (Some q) m (r + 1) ?v"
        using NetError True by (subst request_loop.simps) (simp add: Let_def)
      then have "request_loop api (Some q) m (r + 1) ?v = (res, w')"
        using Suc.prems(1) by simp
      then show ?thesis
        by (rule goal_from_rec) simp_all
    next
      case False
      have "request_loop api (Some q) m r w = (Returns PyNone, say (RequestError e) ?w1)"
        using NetError False le by (subst request_loop.simps) (simp add: Let_def)
      then have "w' = say (RequestError e) ?w1"
        using Suc.prems(1) by simp
      then show ?thesis
        by (intro goal_from_stop) simp_all
    qed
  next
    case (Response st hdr tx js)
    show ?thesis
    proof (cases "st = 429")
      case False
      then have "w' = say (ResponseText tx) (say (ErrorMakingRequest st) ?w1) \<or> w' = ?w1"
        using request_loop_answered [where api = api and w = w and q = q, OF le Response False] Suc.prems(1)
        by (auto split: if_splits)
      then show ?thesis
        by (intro goal_from_stop) auto
    next
      case True
      show ?thesis
      proof (cases "int_or_default hdr")
        case (Raises x)
        have "request_loop api (Some q) m r w = (Raises x, ?w1)"
          using Response True Raises le by (subst request_loop.simps) simp
        then have "w' = ?w1"
          using Suc.prems(1) by simp
        then show ?thesis
          by (intro goal_from_stop) simp_all
      next
        case (Returns secs)
        show ?thesis
        proof (cases "secs < 0")
          case neg: True
          have "request_loop api (Some q) m r w = (Raises ValueError, say (RateLimitExceeded secs) ?w1)"
            using Response True Returns le neg by (subst request_loop.simps) (simp add: Let_def)
          then have "w' = say (RateLimitExceeded secs) ?w1"
            using Suc.prems(1) by simp
          then show ?thesis
            by (intro goal_from_stop) simp_all
        next
          case nonneg: False
          let ?v = "(say (RateLimitExceeded secs) ?w1)
                      \<lparr>sleeps := sleeps (say (RateLimitExceeded secs) ?w1) @ [secs]\<rparr>"
          have "request_loop api (Some q) m r w = request_loop api (Some q) m (r + 1) ?v"
            using Response True Returns le nonneg
            by (subst request_loop.simps) (simp add: Let_def)
          then have "request_loop api (Some q) m (r + 1) ?v = (res, w')"
            using Suc.prems(1) by simp
          then show ?thesis
            by (rule goal_from_rec) simp_all
        qed
      qed
    qed
  qed
qed

lemma make_spotify_request_effects:
  assumes "make_spotify_request api endpoint token meth data ps 5 w = (res, w')"
      and "build_request endpoint token meth data ps = Some q"
  shows "(\<exists>c. 1 \<le> c \<and> c \<le> 6 \<and> requests w' = requests w @ replicate c q) \<and>
         saved w' = saved w \<and> writable w' = writable w \<and> stdin w' = stdin w \<and>
         token_posts w' = token_posts w \<and> browser w' = browser w \<and> listening w' = listening w"
proof -
  have run: "request_loop api (Some q) 5 0 w = (res, w')"
    using assms by (simp add: make_spotify_request_def)
  have "(6::nat) = nat (5 + 1 - 0)"
    by simp
  from request_loop_effects [OF run this] show ?thesis
    by auto
qed

lemma make_spotify_request_answered:
  assumes "build_request endpoint token meth data ps = Some q" "0 \<le> max_retries"
      and "api (length (requests w)) q = Response st hdr tx js" "st \<noteq> 429"
  shows "make_spotify_request api endpoint token meth data ps max_retries w =
         (if st \<ge> 400 then
            (Returns PyNone,
             say (ResponseText tx) (say (ErrorMakingRequest st) (w\<lparr>requests := requests w @ [q]\<rparr>)))
          else (Returns (if tx \<noteq> [] then Obj js else EmptyObj), w\<lparr>requests := requests w @ [q]\<rparr>))"
  unfolding make_spotify_request_def assms(1)
  using assms(2,3,4) by (rule request_loop_answered)

lemma add_tracks_loop_falsy:
  assumes "i < length track_uris" "\<not> truthy r"
      and "make_spotify_request (add_api srv) (''playlists/'' @ playlist_id' @ ''/tracks'') token
             ''POST'' (Some [(''uris'', Strs (take 100 (drop i track_uris)))]) None 5 w = (Returns r, w1)"
  shows "add_tracks_loop srv token playlist_id' track_uris i w =
           (Returns False,
            say (FailedToAddTracks (i + 1) (i + length (take 100 (drop i track_uris)))) w1)"
  using assms by (subst add_tracks_loop.simps) (simp add: Let_def)

lemma add_tracks_loop_truthy:
  assumes "i < length track_uris" "truthy r"
      and "make_spotify_request (add_api srv) (''playlists/'' @ playlist_id' @ ''/tracks'') token
             ''POST'' (Some [(''uris'', Strs (take 100 (drop i track_uris)))]) None 5 w = (Returns r, w1)"
  shows "add_tracks_loop srv token playlist_id' track_uris i w =
           add_tracks_loop srv token playlist_id' track_uris (i + 100) w1"
  using assms by (subst add_tracks_loop.simps) (simp add: Let_def)

lemma find_artist_cached_falsy:
  assumes "load_state w = (st, w0)" "cached_choice st artist_name' = Some ch" "\<not> truthy r"
      and "make_spotify_request (artist_api srv) (''artists/'' @ choice_id ch) client_token ''GET''
             None None 5 (say (UsingSavedArtist (choice_name ch) (choice_id ch)) w0) = (Returns r, w1)"
  shows "find_artist srv artist_name' client_token w =
           search_for_artists srv artist_name' client_token (forget artist_name' st)
             (save_state (forget artist_name' st) (say SavedArtistNoLongerValid w1))"
  using assms by (simp add: find_artist_def Let_def)

lemma find_artist_cached_truthy:
  assumes "load_state w = (st, w0)" "cached_choice st artist_name' = Some ch" "truthy r"
      and "make_spotify_request (artist_api srv) (''artists/'' @ choice_id ch) client_token ''GET''
             None None 5 (say (UsingSavedArtist (choice_name ch) (choice_id ch)) w0) = (Returns r, w1)"
  shows "find_artist srv artist_name' client_token w = (Returns r, w1)"
  using assms by (simp add: find_artist_def Let_def)

lemma search_for_artists_nothing:
  assumes "make_spotify_request (search_api srv) ''search'' client_token ''GET'' None
             (Some [(''q'', Str artist_name'), (''type'', Str ''artist''), (''limit'', Num 10)]) 5 w
           = (Returns r, w1)"
      and "r = EmptyObj \<or> r = PyNone \<or> r = Obj []"
  shows "search_for_artists srv artist_name' client_token st w =
           (Returns PyNone, say (ArtistNotFound artist_name') w1)"
  using assms by (auto simp: search_for_artists_def)

lemma search_for_artists_single:
  assumes "make_spotify_request (search_api srv) ''search'' client_token ''GET'' None
             (Some [(''q'', Str artist_name'), (''type'', Str ''artist''), (''limit'', Num 10)]) 5 w
           = (Returns (Obj [a]), w1)"
  shows "search_for_artists srv artist_name' client_token st w =
           (Returns (Obj a),
            save_state (remember artist_name' a st) (say (FoundArtist (artist_name a) (artist_id a)) w1))"
  using assms by (simp add: search_for_artists_def Let_def)

text \<open>
  Claim C9. A response with a status below 400 and an empty body makes
  \<open>make_spotify_request\<close> return \<open>{}\<close>, which is not \<open>None\<close> and is not truthy. The two
  callers that test the result for truth go the same way for \<open>{}\<close> as for \<open>None\<close>:
  \<open>add_tracks_to_playlist\<close> reports the batch as failed and returns \<open>False\<close>, and
  \<open>find_artist\<close> drops the saved choice, saves the state and searches.
\<close>

theorem empty_body_is_treated_as_failure:
  fixes api :: "nat \<Rightarrow> request \<Rightarrow> 'a outcome" and r2 :: "string reply" and r3 :: "artist reply"
  shows
  "(build_request endpoint token meth data ps = Some q \<and> 0 \<le> max_retries \<and>
    api (length (requests w)) q = Response st hdr [] js \<and> st < 400 \<longrightarrow>
      make_spotify_request api endpoint token meth data ps max_retries w =
        (Returns EmptyObj, w\<lparr>requests := requests w @ [q]\<rparr>) \<and>
      (EmptyObj :: 'a reply) \<noteq> PyNone \<and> \<not> truthy (EmptyObj :: 'a reply)) \<and>
   ((r2 = EmptyObj \<or> r2 = PyNone) \<and> i < length track_uris \<and>
    make_spotify_request (add_api srv) (''playlists/'' @ playlist_id' @ ''/tracks'') token
      ''POST'' (Some [(''uris'', Strs (take 100 (drop i track_uris)))]) None 5 v = (Returns r2, v1) \<longrightarrow>
      add_tracks_loop srv token playlist_id' track_uris i v =
        (Returns False,
         say (FailedToAddTracks (i + 1) (i + length (take 100 (drop i track_uris)))) v1)) \<and>
   ((r3 = EmptyObj \<or> r3 = PyNone) \<and> load_state u = (s, u0) \<and>
    cached_choice s artist_name' = Some ch \<and>
    make_spotify_request (artist_api srv) (''artists/'' @ choice_id ch) client_token ''GET''
      None None 5 (say (UsingSavedArtist (choice_name ch) (choice_id ch)) u0) = (Returns r3, u1) \<longrightarrow>
      find_artist srv artist_name' client_token u =
        search_for_artists srv artist_name' client_token (forget artist_name' s)
          (save_state (forget artist_name' s) (say SavedArtistNoLongerValid u1)))"
proof (intro conjI impI; (elim conjE)?)
  assume a: "build_request endpoint token meth data ps = Some q" "0 \<le> max_retries"
    "api (length (requests w)) q = Response st hdr [] js" "st < 400"
  then have "st \<noteq> 429" by simp
  from make_spotify_request_answered [where api = api and w = w, OF a(1,2,3) this] a(4)
  show "make_spotify_request api endpoint token meth data ps max_retries w =
        (Returns EmptyObj, w\<lparr>requests := requests w @ [q]\<rparr>)"
    by simp
next
  show "(EmptyObj :: 'a reply) \<noteq> PyNone" by simp
next
  show "\<not> truthy (EmptyObj :: 'a reply)" by simp
next
  assume "r2 = EmptyObj \<or> r2 = PyNone"
  then have f: "\<not> truthy r2" by auto
  assume "i < length track_uris"
    "make_spotify_request (add_api srv) (''playlists/'' @ playlist_id' @ ''/tracks'') token
      ''POST'' (Some [(''uris'', Strs (take 100 (drop i track_uris)))]) None 5 v = (Returns r2, v1)"
  from add_tracks_loop_falsy [OF this(1) f this(2)]
  show "add_tracks_loop srv token playlist_id' track_uris i v =
        (Returns False,
         say (FailedToAddTracks (i + 1) (i + length (take 100 (drop i track_uris)))) v1)" .
next
  assume "r3 = EmptyObj \<or> r3 = PyNone"
  then have f: "\<not> truthy r3" by auto
  assume "load_state u = (s, u0)" "cached_choice s artist_name' = Some ch"
    "make_spotify_request (artist_api srv) (''artists/'' @ choice_id ch) client_token ''GET''
      None None 5 (say (UsingSavedArtist (choice_name ch) (choice_id ch)) u0) = (Returns r3, u1)"
  from find_artist_cached_falsy [OF this(1,2) f this(3)]
  show "find_artist srv artist_name' client_token u =
        search_for_artists srv artist_name' client_token (forget artist_name' s)
          (save_state (forget artist_name' s) (say SavedArtistNoLongerValid u1))" .
qed

text \<open>
  Against the service without bodies: the first batch is posted once and reported as
  failed, and the saved choice is looked up once, dropped, and searched for again.
\<close>

theorem empty_body_is_treated_as_failure_witness:
  "add_tracks_to_playlist hollow ''token'' ''pl'' [''spotify:track:1'', ''spotify:track:2'']
     fresh_world =
     (Returns False,
      say (FailedToAddTracks 1 2)
        (fresh_world\<lparr>requests :=
           [\<lparr>verb = ''POST'', url = SPOTIFY_API_BASE @ ''/playlists/pl/tracks'',
             headers = [(''Authorization'', ''Bearer token''),
                        (''Content-Type'', ''application/json'')],
             params = None,
             json_body = Some [(''uris'', Strs [''spotify:track:1'', ''spotify:track:2''])]\<rparr>]\<rparr>)) \<and>
   fst (find_artist hollow ''Test Artist'' ''token'' cached_world) = Returns PyNone \<and>
   saved (snd (find_artist hollow ''Test Artist'' ''token'' cached_world)) = Doc default_state \<and>
   map url (requests (snd (find_artist hollow ''Test Artist'' ''token'' cached_world))) =
     [SPOTIFY_API_BASE @ ''/artists/test_id_123'', SPOTIFY_API_BASE @ ''/search'']"
proof -
  let ?uris = "[''spotify:track:1'', ''spotify:track:2'']"
  let ?q = "\<lparr>verb = ''POST'', url = SPOTIFY_API_BASE @ ''/playlists/pl/tracks'',
             headers = [(''Authorization'', ''Bearer token''),
                        (''Content-Type'', ''application/json'')],
             params = None, json_body = Some [(''uris'', Strs ?uris)]\<rparr>"
  note claim = empty_body_is_treated_as_failure
  have q: "build_request (''playlists/'' @ ''pl'' @ ''/tracks'') ''token'' ''POST''
             (Some [(''uris'', Strs (take 100 (drop 0 ?uris)))]) None = Some ?q"
    by (simp add: build_request_def)
  have a: "add_api hollow (length (requests fresh_world)) ?q = Response 201 Absent [] []"
    by (simp add: hollow_def offline_def)
  have post: "make_spotify_request (add_api hollow) (''playlists/'' @ ''pl'' @ ''/tracks'') ''token''
      ''POST'' (Some [(''uris'', Strs (take 100 (drop 0 ?uris)))]) None 5 fresh_world =
      (Returns EmptyObj, fresh_world\<lparr>requests := requests fresh_world @ [?q]\<rparr>)"
    using claim [where api = "add_api hollow" and w = fresh_world and q = "?q" and max_retries = 5
        and st = 201 and hdr = Absent and js = "[]"
        and endpoint = "''playlists/'' @ ''pl'' @ ''/tracks''" and token = "''token''"
        and meth = "''POST''" and data = "Some [(''uris'', Strs (take 100 (drop 0 ?uris)))]"
        and ps = None, THEN conjunct1]
      q a by simp
  have "add_tracks_loop hollow ''token'' ''pl'' ?uris 0 fresh_world =
      (Returns False,
       say (FailedToAddTracks (0 + 1) (0 + length (take 100 (drop 0 ?uris))))
         (fresh_world\<lparr>requests := requests fresh_world @ [?q]\<rparr>))"
    using claim [where ?r2.0 = EmptyObj and i = 0 and track_uris = "?uris" and srv = hollow
        and playlist_id' = "''pl''" and token = "''token''" and v = fresh_world
        and ?v1.0 = "fresh_world\<lparr>requests := requests fresh_world @ [?q]\<rparr>",
        THEN conjunct2, THEN conjunct1]
      post by simp
  then have one: "add_tracks_to_playlist hollow ''token'' ''pl'' ?uris fresh_world =
     (Returns False,
      say (FailedToAddTracks 1 2) (fresh_world\<lparr>requests := [?q]\<rparr>))"
    by (simp add: add_tracks_to_playlist_def fresh_world_def)
  let ?st = "default_state\<lparr>artist_choices := Some [(''Test Artist'', test_choice)]\<rparr>"
  let ?u0 = "say (UsingSavedArtist (choice_name test_choice) (choice_id test_choice)) cached_world"
  let ?p = "\<lparr>verb = ''GET'', url = SPOTIFY_API_BASE @ ''/artists/test_id_123'',
             headers = [(''Authorization'', ''Bearer token'')], params = None,
             json_body = None\<rparr>"
  have load: "load_state cached_world = (?st, cached_world)"
    by (simp add: load_state_def cached_world_def fresh_world_def)
  have hit: "cached_choice ?st ''Test Artist'' = Some test_choice"
    by (simp add: cached_choice_def)
  have p: "build_request (''artists/'' @ choice_id test_choice) ''token'' ''GET'' None None = Some ?p"
    by (simp add: build_request_def test_choice_def)
  have b: "artist_api hollow (length (requests ?u0)) ?p =
      Response 200 Absent [] \<lparr>artist_id = [], artist_name = [], followers_total = None\<rparr>"
    by (simp add: hollow_def offline_def)
  have lookup: "make_spotify_request (artist_api hollow) (''artists/'' @ choice_id test_choice)
      ''token'' ''GET'' None None 5 ?u0 = (Returns EmptyObj, ?u0\<lparr>requests := requests ?u0 @ [?p]\<rparr>)"
    using claim [where api = "artist_api hollow" and w = "?u0" and q = "?p" and max_retries = 5
        and st = 200 and hdr = Absent
        and js = "\<lparr>artist_id = [], artist_name = [], followers_total = None\<rparr>"
        and endpoint = "''artists/'' @ choice_id test_choice" and token = "''token''"
        and meth = "''GET''" and data = None and ps = None, THEN conjunct1]
      p b by simp
  let ?u1 = "?u0\<lparr>requests := requests ?u0 @ [?p]\<rparr>"
  have fall: "find_artist hollow ''Test Artist'' ''token'' cached_world =
      search_for_artists hollow ''Test Artist'' ''token'' (forget ''Test Artist'' ?st)
        (save_state (forget ''Test Artist'' ?st) (say SavedArtistNoLongerValid ?u1))"
    using claim [where ?r3.0 = EmptyObj and u = cached_world and s = "?st" and ?u0.0 = cached_world
        and artist_name' = "''Test Artist''" and ch = test_choice and srv = hollow
        and client_token = "''token''" and ?u1.0 = "?u1", THEN conjunct2, THEN conjunct2]
      load hit lookup by simp
  have forget: "forget ''Test Artist'' ?st = default_state"
    by (simp add: forget_def default_state_def AList.delete_eq)
  let ?u2 = "save_state default_state (say SavedArtistNoLongerValid ?u1)"
  let ?s = "\<lparr>verb = ''GET'', url = SPOTIFY_API_BASE @ ''/search'',
             headers = [(''Authorization'', ''Bearer token'')],
             params = Some [(''q'', Str ''Test Artist''), (''type'', Str ''artist''),
                            (''limit'', Num 10)],
             json_body = None\<rparr>"
  have s: "build_request ''search'' ''token'' ''GET'' None
             (Some [(''q'', Str ''Test Artist''), (''type'', Str ''artist''), (''limit'', Num 10)])
           = Some ?s"
    by (simp add: build_request_def)
  have c: "search_api hollow (length (requests ?u2)) ?s = Response 200 Absent [] []"
    by (simp add: hollow_def offline_def)
  have search: "make_spotify_request (search_api hollow) ''search'' ''token'' ''GET'' None
      (Some [(''q'', Str ''Test Artist''), (''type'', Str ''artist''), (''limit'', Num 10)]) 5 ?u2 =
      (Returns EmptyObj, ?u2\<lparr>requests := requests ?u2 @ [?s]\<rparr>)"
    using claim [where api = "search_api hollow" and w = "?u2" and q = "?s" and max_retries = 5
        and st = 200 and hdr = Absent and js = "[]" and endpoint = "''search''"
        and token = "''token''" and meth = "''GET''" and data = None
        and ps = "Some [(''q'', Str ''Test Artist''), (''type'', Str ''artist''), (''limit'', Num 10)]",
        THEN conjunct1]
      s c by simp
  have two: "find_artist hollow ''Test Artist'' ''token'' cached_world =
      (Returns PyNone, say (ArtistNotFound ''Test Artist'') (?u2\<lparr>requests := requests ?u2 @ [?s]\<rparr>))"
    unfolding fall forget by (rule search_for_artists_nothing [OF search]) simp
  show ?thesis
    unfolding one two
    by (simp add: cached_world_def fresh_world_def save_state_def say_def)
qed

subsection \<open>The cache of artist choices\<close>

lemma list_options_fields [simp]:
  "requests (list_options i as w) = requests w" "saved (list_options i as w) = saved w"
  "writable (list_options i as w) = writable w" "stdin (list_options i as w) = stdin w"
  "token_posts (list_options i as w) = token_posts w"
  by (induction as arbitrary: i w) simp_all

lemma save_state_saved:
  "writable w \<Longrightarrow> saved (save_state s w) = Doc s"
  by (simp add: save_state_def)

lemma choose_loop_caches:
  assumes "choose_loop artist_name' st artists ls w = (Returns (Obj a), w')" "writable w"
  shows "saved w' = Doc (remember artist_name' a st)"
  using assms
proof (induction ls arbitrary: w)
  case Nil
  then show ?case by simp
next
  case (Cons l ls)
  let ?w1 = "(say EnterChoicePrompt w)\<lparr>stdin := ls\<rparr>"
  show ?case
  proof (cases "is_q l")
    case True
    then show ?thesis using Cons.prems by (simp add: Let_def)
  next
    case False
    show ?thesis
    proof (cases "as_int l")
      case None
      then have "choose_loop artist_name' st artists ls (say EnterNumberOrQ ?w1) = (Returns (Obj a), w')"
        using Cons.prems(1) False by (simp add: Let_def)
      from Cons.IH [OF this] Cons.prems(2) show ?thesis
        by simp
    next
      case (Some n)
      show ?thesis
      proof (cases "0 \<le> n - 1 \<and> n - 1 < int (length artists)")
        case True
        then have "(Returns (Obj a), w') =
            (Returns (Obj (artists ! nat (n - 1))),
             save_state (remember artist_name' (artists ! nat (n - 1)) st)
               (say (Selected (artist_name (artists ! nat (n - 1)))) ?w1))"
          using Cons.prems(1) False Some by (auto simp: Let_def)
        then have "a = artists ! nat (n - 1)"
          and "w' = save_state (remember artist_name' (artists ! nat (n - 1)) st)
                      (say (Selected (artist_name (artists ! nat (n - 1)))) ?w1)"
          by simp_all
        then show ?thesis
          using Cons.prems(2) by (simp add: save_state_saved)
      next
        case out: False
        then have "choose_loop artist_name' st artists ls (say InvalidChoice ?w1) = (Returns (Obj a), w')"
          using Cons.prems(1) False Some by (auto simp: Let_def split: if_splits)
        from Cons.IH [OF this] Cons.prems(2) show ?thesis
          by simp
      qed
    qed
  qed
qed

lemma search_for_artists_caches:
  assumes "search_for_artists srv artist_name' client_token st w = (Returns (Obj a), w')"
      and "writable w"
  shows "saved w' = Doc (remember artist_name' a st)"
proof -
  let ?ps = "Some [(''q'', Str artist_name'), (''type'', Str ''artist''), (''limit'', Num 10)]"
  obtain res w1 where m: "make_spotify_request (search_api srv) ''search'' client_token ''GET'' None
      ?ps 5 w = (res, w1)"
    by (cases "make_spotify_request (search_api srv) ''search'' client_token ''GET'' None ?ps 5 w")
  have "build_request ''search'' client_token ''GET'' None ?ps \<noteq> None"
    by (simp add: build_request_def)
  then obtain q where "build_request ''search'' client_token ''GET'' None ?ps = Some q"
    by blast
  from make_spotify_request_effects [OF m this] assms(2)
  have w1: "writable w1" by simp
  show ?thesis
  proof (cases res)
    case (Raises e)
    then show ?thesis using assms(1) m by (simp add: search_for_artists_def)
  next
    case (Returns r)
    show ?thesis
    proof (cases r)
      case PyNone
      then show ?thesis using assms(1) m Returns by (simp add: search_for_artists_def)
    next
      case EmptyObj
      then show ?thesis using assms(1) m Returns by (simp add: search_for_artists_def)
    next
      case (Obj artists)
      show ?thesis
      proof (cases "artists = []")
        case True
        then show ?thesis using assms(1) m Returns Obj by (simp add: search_for_artists_def)
      next
        case False
        show ?thesis
        proof (cases "length artists = 1")
          case True
          then have "(Returns (Obj a), w') =
              (Returns (Obj (artists ! 0)),
               save_state (remember artist_name' (artists ! 0) st)
                 (say (FoundArtist (artist_name (artists ! 0)) (artist_id (artists ! 0))) w1))"
            using assms(1) m Returns Obj False by (auto simp: search_for_artists_def Let_def)
          then have "a = artists ! 0"
            and "w' = save_state (remember artist_name' (artists ! 0) st)
                   (say (FoundArtist (artist_name (artists ! 0)) (artist_id (artists ! 0))) w1)"
            by simp_all
          then show ?thesis using w1 by (simp add: save_state_saved)
        next
          case many: False
          let ?w3 = "list_options 1 artists (say (MultipleArtistsFound artist_name') w1)"
          have "choose_loop artist_name' st artists (stdin ?w3) ?w3 = (Returns (Obj a), w')"
            using assms(1) m Returns Obj False many by (simp add: search_for_artists_def Let_def)
          then show ?thesis
            by (rule choose_loop_caches) (simp add: w1)
        qed
      qed
    qed
  qed
qed

lemma cached_choice_remember:
  "cached_choice (remember artist_name' a st) artist_name' =
     Some \<lparr>choice_id = artist_id a, choice_name = artist_name a\<rparr>"
  by (simp add: cached_choice_def remember_def update_conv')

lemma cached_choice_forget:
  "cached_choice (forget artist_name' st) artist_name' = None"
  by (cases "artist_choices st") (simp_all add: cached_choice_def forget_def delete_conv')

text \<open>
  Claim C3. Let the state document hold a choice \<open>ch\<close> for exactly the name asked for, and
  let \<open>(res, w1)\<close> be what the one call of the wrapper for \<open>artists/<id of ch>\<close> gives.
  \<^item> That call sends between one and six requests, all of them the lookup \<open>q\<close> of the
    saved id (exactly one when the service answers the first with a success that has a
    body), and leaves the state file alone.
  \<^item> When it returns an artist, \<open>find_artist\<close> returns that artist in the world the
    lookup left: nothing was sent to the search endpoint.
  \<^item> When it returns \<open>{}\<close> or \<open>None\<close>, \<open>find_artist\<close> is the search, started from the
    document without the entry for the name and after that document was saved.
  \<^item> A search that resolves the name stores the choice under it (when the file can be
    written), which is the situation the first two items start from.
\<close>

theorem find_artist_uses_cached_choice:
  assumes "load_state w = (st, w0)" and "cached_choice st artist_name' = Some ch"
      and "make_spotify_request (artist_api srv) (''artists/'' @ choice_id ch) client_token ''GET''
             None None 5 (say (UsingSavedArtist (choice_name ch) (choice_id ch)) w0) = (res, w1)"
      and "q = \<lparr>verb = ''GET'', url = SPOTIFY_API_BASE @ ''/'' @ ''artists/'' @ choice_id ch,
                 headers = [(''Authorization'', ''Bearer '' @ client_token)], params = None,
                 json_body = None\<rparr>"
  shows "(\<exists>c. 1 \<le> c \<and> c \<le> 6 \<and> requests w1 = requests w @ replicate c q) \<and>
         saved w1 = saved w \<and>
         (\<forall>a. res = Returns (Obj a) \<longrightarrow>
            find_artist srv artist_name' client_token w = (Returns (Obj a), w1)) \<and>
         (\<forall>e. res = Raises e \<longrightarrow>
            find_artist srv artist_name' client_token w = (Raises e, w1)) \<and>
         (res = Returns EmptyObj \<or> res = Returns PyNone \<longrightarrow>
            find_artist srv artist_name' client_token w =
              search_for_artists srv artist_name' client_token (forget artist_name' st)
                (save_state (forget artist_name' st) (say SavedArtistNoLongerValid w1)) \<and>
            cached_choice (forget artist_name' st) artist_name' = None \<and>
            (writable w \<longrightarrow>
               saved (save_state (forget artist_name' st) (say SavedArtistNoLongerValid w1)) =
                 Doc (forget artist_name' st))) \<and>
         (\<forall>code hdr tx a. artist_api srv (length (requests w)) q = Response code hdr tx a \<and>
            code < 400 \<and> tx \<noteq> [] \<longrightarrow>
            res = Returns (Obj a) \<and> requests w1 = requests w @ [q]) \<and>
         (\<forall>s v a v'. search_for_artists srv artist_name' client_token s v = (Returns (Obj a), v') \<and>
            writable v \<longrightarrow>
            saved v' = Doc (remember artist_name' a s) \<and>
            cached_choice (remember artist_name' a s) artist_name' =
              Some \<lparr>choice_id = artist_id a, choice_name = artist_name a\<rparr>)"
proof -
  let ?u = "say (UsingSavedArtist (choice_name ch) (choice_id ch)) w0"
  have w0: "requests w0 = requests w" "saved w0 = saved w" "writable w0 = writable w"
    using load_state_fields [of w] unfolding assms(1) by simp_all
  have b: "build_request (''artists/'' @ choice_id ch) client_token ''GET'' None None = Some q"
    by (simp add: build_request_def assms(4))
  note eff = make_spotify_request_effects [OF assms(3) b]
  have 1: "\<exists>c. 1 \<le> c \<and> c \<le> 6 \<and> requests w1 = requests w @ replicate c q"
    using eff w0 by simp
  have 2: "saved w1 = saved w"
    using eff w0 by simp
  have 3: "find_artist srv artist_name' client_token w = (Returns (Obj a), w1)"
    if "res = Returns (Obj a)" for a
    using find_artist_cached_truthy [OF assms(1,2) _ assms(3) [unfolded that]] by simp
  have 4: "find_artist srv artist_name' client_token w = (Raises e, w1)" if "res = Raises e" for e
    using assms(1,2,3) that by (simp add: find_artist_def Let_def)
  have 5: "find_artist srv artist_name' client_token w =
              search_for_artists srv artist_name' client_token (forget artist_name' st)
                (save_state (forget artist_name' st) (say SavedArtistNoLongerValid w1))"
    if "res = Returns EmptyObj \<or> res = Returns PyNone"
  proof -
    from that obtain r where r: "res = Returns r" "\<not> truthy r"
      by auto
    from find_artist_cached_falsy [OF assms(1,2) r(2) assms(3) [unfolded r(1)]] show ?thesis .
  qed
  have 6: "saved (save_state (forget artist_name' st) (say SavedArtistNoLongerValid w1)) =
                 Doc (forget artist_name' st)" if "writable w"
    using that eff w0 by (simp add: save_state_saved)
  have 7: "res = Returns (Obj a) \<and> requests w1 = requests w @ [q]"
    if "artist_api srv (length (requests w)) q = Response code hdr tx a" "code < 400" "tx \<noteq> []"
    for code hdr tx a
  proof -
    have "artist_api srv (length (requests ?u)) q = Response code hdr tx a" "code \<noteq> 429"
      using that w0 by simp_all
    from make_spotify_request_answered [where api = "artist_api srv" and w = ?u, OF b _ this]
    have "make_spotify_request (artist_api srv) (''artists/'' @ choice_id ch) client_token ''GET''
             None None 5 ?u = (Returns (Obj a), ?u\<lparr>requests := requests ?u @ [q]\<rparr>)"
      using that by simp
    with assms(3) have "res = Returns (Obj a)" "w1 = ?u\<lparr>requests := requests ?u @ [q]\<rparr>"
      by simp_all
    then show ?thesis
      using w0 by simp
  qed
  have 8: "saved v' = Doc (remember artist_name' a s) \<and>
            cached_choice (remember artist_name' a s) artist_name' =
              Some \<lparr>choice_id = artist_id a, choice_name = artist_name a\<rparr>"
    if "search_for_artists srv artist_name' client_token s v = (Returns (Obj a), v')" "writable v"
    for s v a v'
    using search_for_artists_caches [OF that] cached_choice_remember by simp
  show ?thesis
    using 1 2 3 4 5 6 7 8 cached_choice_forget [of artist_name' st]
    by (intro conjI allI impI) blast+
qed

text \<open>
  The round trip: the first call finds the artist by a search and saves the choice; the
  second call, in the world the first left, sends one lookup and no search.
\<close>

theorem find_artist_uses_cached_choice_witness:
  "fst (find_artist catalog ''Test Artist'' ''test_token'' fresh_world) = Returns (Obj test_artist) \<and>
   saved (snd (find_artist catalog ''Test Artist'' ''test_token'' fresh_world)) =
     Doc (default_state\<lparr>artist_choices := Some [(''Test Artist'', test_choice)]\<rparr>) \<and>
   fst (find_artist catalog ''Test Artist'' ''test_token''
          (snd (find_artist catalog ''Test Artist'' ''test_token'' fresh_world))) =
     Returns (Obj test_artist) \<and>
   map url (requests (snd (find_artist catalog ''Test Artist'' ''test_token''
          (snd (find_artist catalog ''Test Artist'' ''test_token'' fresh_world))))) =
     [SPOTIFY_API_BASE @ ''/search'', SPOTIFY_API_BASE @ ''/artists/test_id_123'']"
proof -
  let ?ps = "Some [(''q'', Str ''Test Artist''), (''type'', Str ''artist''), (''limit'', Num 10)]"
  let ?s = "\<lparr>verb = ''GET'', url = SPOTIFY_API_BASE @ ''/search'',
             headers = [(''Authorization'', ''Bearer test_token'')], params = ?ps,
             json_body = None\<rparr>"
  let ?st1 = "default_state\<lparr>artist_choices := Some [(''Test Artist'', test_choice)]\<rparr>"
  have s: "build_request ''search'' ''test_token'' ''GET'' None ?ps = Some ?s"
    by (simp add: build_request_def)
  have "search_api catalog (length (requests fresh_world)) ?s =
      Response 200 Absent ''{artists: {items: [...]}}'' [test_artist]" "(200::int) \<noteq> 429"
    by (simp_all add: catalog_def offline_def)
  from make_spotify_request_answered [where api = "search_api catalog" and w = fresh_world,
      OF s _ this]
  have "make_spotify_request (search_api catalog) ''search'' ''test_token'' ''GET'' None ?ps 5
      fresh_world = (Returns (Obj [test_artist]), fresh_world\<lparr>requests := requests fresh_world @ [?s]\<rparr>)"
    by simp
  from search_for_artists_single [OF this, of default_state]
  have "search_for_artists catalog ''Test Artist'' ''test_token'' default_state fresh_world =
      (Returns (Obj test_artist),
       save_state (remember ''Test Artist'' test_artist default_state)
         (say (FoundArtist (artist_name test_artist) (artist_id test_artist))
            (fresh_world\<lparr>requests := requests fresh_world @ [?s]\<rparr>)))" .
  moreover have "remember ''Test Artist'' test_artist default_state = ?st1"
    by (simp add: remember_def default_state_def test_artist_def test_choice_def)
  moreover have "find_artist catalog ''Test Artist'' ''test_token'' fresh_world =
      search_for_artists catalog ''Test Artist'' ''test_token'' default_state fresh_world"
    by (simp add: find_artist_def load_state_def fresh_world_def cached_choice_def default_state_def)
  ultimately have first: "find_artist catalog ''Test Artist'' ''test_token'' fresh_world =
      (Returns (Obj test_artist),
       save_state ?st1 (say (FoundArtist (artist_name test_artist) (artist_id test_artist))
            (fresh_world\<lparr>requests := requests fresh_world @ [?s]\<rparr>)))"
    by simp
  let ?w1 = "save_state ?st1 (say (FoundArtist (artist_name test_artist) (artist_id test_artist))
            (fresh_world\<lparr>requests := requests fresh_world @ [?s]\<rparr>))"
  have w1: "saved ?w1 = Doc ?st1" "requests ?w1 = [?s]"
    by (simp_all add: save_state_def fresh_world_def)
  have load: "load_state ?w1 = (?st1, ?w1)"
    by (simp add: load_state_def w1)
  have hit: "cached_choice ?st1 ''Test Artist'' = Some test_choice"
    by (simp add: cached_choice_def)
  let ?q = "\<lparr>verb = ''GET'', url = SPOTIFY_API_BASE @ ''/'' @ ''artists/'' @ choice_id test_choice,
             headers = [(''Authorization'', ''Bearer '' @ ''test_token'')], params = None,
             json_body = None\<rparr>"
  let ?look = "make_spotify_request (artist_api catalog) (''artists/'' @ choice_id test_choice)
      ''test_token'' ''GET'' None None 5
      (say (UsingSavedArtist (choice_name test_choice) (choice_id test_choice)) ?w1)"
  have look: "?look = (fst ?look, snd ?look)"
    by simp
  note claim = find_artist_uses_cached_choice [OF load hit look refl]
  have answer: "artist_api catalog (length (requests ?w1)) ?q =
      Response 200 Absent ''{id: test_id_123}'' test_artist \<and> (200::int) < 400 \<and>
      ''{id: test_id_123}'' \<noteq> []"
    by (simp add: catalog_def offline_def)
  have res: "fst ?look = Returns (Obj test_artist)"
    and reqs: "requests (snd ?look) = requests ?w1 @ [?q]"
    using claim answer by blast+
  have second: "find_artist catalog ''Test Artist'' ''test_token'' ?w1 =
      (Returns (Obj test_artist), snd ?look)"
    using claim res by blast
  have "map url (requests (snd ?look)) =
      [SPOTIFY_API_BASE @ ''/search'', SPOTIFY_API_BASE @ ''/artists/test_id_123'']"
    unfolding reqs w1 by (simp add: test_choice_def)
  then show ?thesis
    unfolding first fst_conv snd_conv second w1 by simp
qed

subsection \<open>Duplicate removal\<close>

lemma nth_filter_Cons:
  "map (nth (t # ts)) (filter P [0..<Suc (length ts)]) =
     (if P 0 then [t] else []) @ map (nth ts) (filter (\<lambda>i. P (Suc i)) [0..<length ts])"
proof -
  have "[0..<Suc (length ts)] = 0 # map Suc [0..<length ts]"
    by (simp add: upt_conv_Cons map_Suc_upt del: upt_Suc)
  then show ?thesis
    by (simp add: filter_map o_def del: upt_Suc)
qed

lemma unique_loop_index:
  "unique_loop xs seen acc =
     acc @ map (nth xs)
             (filter (\<lambda>i. track_id (xs ! i) \<notin> seen \<and> (\<forall>j<i. track_id (xs ! j) \<noteq> track_id (xs ! i)))
                [0..<length xs])"
proof (induction xs arbitrary: seen acc)
  case Nil
  show ?case by simp
next
  case (Cons t ts)
  let ?P = "\<lambda>i. track_id ((t # ts) ! i) \<notin> seen \<and>
              (\<forall>j<i. track_id ((t # ts) ! j) \<noteq> track_id ((t # ts) ! i))"
  have split: "map (nth (t # ts)) (filter ?P [0..<length (t # ts)]) =
      (if ?P 0 then [t] else []) @ map (nth ts) (filter (\<lambda>i. ?P (Suc i)) [0..<length ts])"
    using nth_filter_Cons [of t ts ?P] by simp
  show ?case
  proof (cases "track_id t \<in> seen")
    case True
    have "filter (\<lambda>i. ?P (Suc i)) [0..<length ts] =
          filter (\<lambda>i. track_id (ts ! i) \<notin> seen \<and>
              (\<forall>j<i. track_id (ts ! j) \<noteq> track_id (ts ! i))) [0..<length ts]"
      using True by (intro filter_cong refl) (auto simp: All_less_Suc2)
    then show ?thesis
      using True unfolding split by (simp add: Cons.IH)
  next
    case False
    have "filter (\<lambda>i. ?P (Suc i)) [0..<length ts] =
          filter (\<lambda>i. track_id (ts ! i) \<notin> insert (track_id t) seen \<and>
              (\<forall>j<i. track_id (ts ! j) \<noteq> track_id (ts ! i))) [0..<length ts]"
      by (intro filter_cong refl) (auto simp: All_less_Suc2)
    then show ?thesis
      using False unfolding split by (simp add: Cons.IH)
  qed
qed

lemma unique_loop_ids:
  "set (map track_id (unique_loop xs seen acc)) = set (map track_id acc) \<union> (set (map track_id xs) - seen)"
  by (induction xs arbitrary: seen acc) auto

lemma unique_loop_distinct:
  "distinct (map track_id acc) \<Longrightarrow> set (map track_id acc) \<subseteq> seen \<Longrightarrow>
   distinct (map track_id (unique_loop xs seen acc))"
proof (induction xs arbitrary: seen acc)
  case Nil
  then show ?case by simp
next
  case (Cons t ts)
  show ?case
  proof (cases "track_id t \<in> seen")
    case True
    then show ?thesis using Cons by simp
  next
    case False
    have "distinct (map track_id (acc @ [t]))"
      using Cons.prems False by auto
    moreover have "set (map track_id (acc @ [t])) \<subseteq> insert (track_id t) seen"
      using Cons.prems by auto
    ultimately have "distinct (map track_id (unique_loop ts (insert (track_id t) seen) (acc @ [t])))"
      by (rule Cons.IH)
    then show ?thesis using False by simp
  qed
qed

lemma once_in_distinct:
  assumes "distinct (map f xs)" "x \<in> set xs"
  shows "length (filter (\<lambda>u. f u = f x) xs) = 1"
  using assms
proof (induction xs)
  case Nil
  then show ?case by simp
next
  case (Cons y ys)
  show ?case
  proof (cases "f y = f x")
    case True
    then have "filter (\<lambda>u. f u = f x) ys = []"
      using Cons.prems(1) by (auto simp: filter_empty_conv image_iff)
    then show ?thesis using True by simp
  next
    case False
    then have "x \<in> set ys" using Cons.prems(2) by auto
    then show ?thesis using Cons False by simp
  qed
qed

lemma remove_duplicates_once:
  assumes "t \<in> set all_tracks"
  shows "length (filter (\<lambda>u. track_id u = track_id t) (remove_duplicates all_tracks)) = 1"
proof -
  have d: "distinct (map track_id (remove_duplicates all_tracks))"
    unfolding remove_duplicates_def by (rule unique_loop_distinct) simp_all
  have "track_id t \<in> set (map track_id (remove_duplicates all_tracks))"
    unfolding remove_duplicates_def unique_loop_ids using assms by simp
  then obtain u where u: "u \<in> set (remove_duplicates all_tracks)" "track_id u = track_id t"
    by auto
  from once_in_distinct [OF d u(1)] u(2) show ?thesis by simp
qed

text \<open>
  Claim C5. The duplicate removal of \<open>main\<close> keeps, in the order of the merged list,
  exactly the tracks that are the first with their id. So no id occurs twice in the
  result, the ids of the result are those of the merged list, and every id of the merged
  list occurs exactly once; in particular an id that the lists of two artists share
  occurs exactly once.
\<close>

theorem remove_duplicates_first_seen:
  "remove_duplicates all_tracks =
     map (nth all_tracks) (filter (first_occurrence all_tracks) [0..<length all_tracks]) \<and>
   distinct (map track_id (remove_duplicates all_tracks)) \<and>
   set (map track_id (remove_duplicates all_tracks)) = set (map track_id all_tracks) \<and>
   (\<forall>t \<in> set all_tracks.
      length (filter (\<lambda>u. track_id u = track_id t) (remove_duplicates all_tracks)) = 1) \<and>
   (t1 \<in> set tracks1 \<and> t2 \<in> set tracks2 \<and> track_id t1 = track_id t2 \<longrightarrow>
      length (filter (\<lambda>u. track_id u = track_id t1) (remove_duplicates (tracks1 @ tracks2))) = 1)"
proof (intro conjI ballI impI)
  show "remove_duplicates all_tracks =
     map (nth all_tracks) (filter (first_occurrence all_tracks) [0..<length all_tracks])"
    unfolding remove_duplicates_def first_occurrence_def unique_loop_index by simp
  show "distinct (map track_id (remove_duplicates all_tracks))"
    unfolding remove_duplicates_def by (rule unique_loop_distinct) simp_all
  show "set (map track_id (remove_duplicates all_tracks)) = set (map track_id all_tracks)"
    unfolding remove_duplicates_def unique_loop_ids by simp
  show "length (filter (\<lambda>u. track_id u = track_id t) (remove_duplicates all_tracks)) = 1"
    if "t \<in> set all_tracks" for t
    using that by (rule remove_duplicates_once)
  show "length (filter (\<lambda>u. track_id u = track_id t1) (remove_duplicates (tracks1 @ tracks2))) = 1"
    if "t1 \<in> set tracks1 \<and> t2 \<in> set tracks2 \<and> track_id t1 = track_id t2"
    using that by (intro remove_duplicates_once) simp
qed

text \<open>Two artists whose lists share the track with id \<open>f\<close>.\<close>

theorem remove_duplicates_first_seen_witness:
  "remove_duplicates ([song ''a'' ''A'' ''2010'', song ''f'' ''Feature'' ''2015''] @
                      [song ''f'' ''Feature (again)'' ''2016'', song ''b'' ''B'' ''2023'']) =
     [song ''a'' ''A'' ''2010'', song ''f'' ''Feature'' ''2015'', song ''b'' ''B'' ''2023''] \<and>
   length (filter (\<lambda>u. track_id u = ''f'')
     (remove_duplicates ([song ''a'' ''A'' ''2010'', song ''f'' ''Feature'' ''2015''] @
                      [song ''f'' ''Feature (again)'' ''2016'', song ''b'' ''B'' ''2023'']))) = 1"
proof -
  let ?xs = "[song ''a'' ''A'' ''2010'', song ''f'' ''Feature'' ''2015'']"
  let ?ys = "[song ''f'' ''Feature (again)'' ''2016'', song ''b'' ''B'' ''2023'']"
  have run: "remove_duplicates (?xs @ ?ys) =
     [song ''a'' ''A'' ''2010'', song ''f'' ''Feature'' ''2015'', song ''b'' ''B'' ''2023'']"
    by (simp add: remove_duplicates_def song_def)
  have "song ''f'' ''Feature'' ''2015'' \<in> set ?xs \<and> song ''f'' ''Feature (again)'' ''2016'' \<in> set ?ys \<and>
        track_id (song ''f'' ''Feature'' ''2015'') = track_id (song ''f'' ''Feature (again)'' ''2016'')"
    by (simp add: song_def)
  with remove_duplicates_first_seen [of "?xs @ ?ys" "song ''f'' ''Feature'' ''2015''" ?xs
      "song ''f'' ''Feature (again)'' ''2016''" ?ys]
  have "length (filter (\<lambda>u. track_id u = track_id (song ''f'' ''Feature'' ''2015''))
          (remove_duplicates (?xs @ ?ys))) = 1"
    by blast
  then have "length (filter (\<lambda>u. track_id u = ''f'') (remove_duplicates (?xs @ ?ys))) = 1"
    by (simp add: song_def)
  with run show ?thesis by blast
qed

subsection \<open>Sorting\<close>

lemma py_sorted_mset: "mset (py_sorted key reverse xs) = mset xs"
  by (simp add: py_sorted_def)

lemma py_sorted_stable:
  "filter (\<lambda>x. key x = k) (py_sorted key reverse xs) = filter (\<lambda>x. key x = k) xs"
  by (simp add: py_sorted_def sort_key_stable rev_filter [symmetric])

lemma py_sorted_ascending: "sorted (map key (py_sorted key False xs))"
  by (simp add: py_sorted_def)

lemma py_sorted_descending: "sorted (rev (map key (py_sorted key True xs)))"
  by (simp add: py_sorted_def rev_map [symmetric])

text \<open>
  Claim C6. With the method \<open>date\<close> and the order \<open>asc\<close> or \<open>desc\<close>, \<open>sort_tracks\<close> returns
  (without any request) a permutation of its input that is ascending, respectively
  descending, in the key \<open>album_release_date\<close>, the empty string standing for a missing
  date; the order on the keys is the lexicographic order of strings. In both directions
  the tracks with one and the same date keep the order they had in the input.
\<close>

theorem sort_tracks_by_date:
  assumes "sort_order = ''asc'' \<or> sort_order = ''desc''"
  shows "\<exists>sorted_tracks.
     sort_tracks srv tracks ''date'' sort_order client_token w = (Returns sorted_tracks, w) \<and>
     mset sorted_tracks = mset tracks \<and>
     (sort_order = ''asc'' \<longrightarrow> sorted (map date_key sorted_tracks)) \<and>
     (sort_order = ''desc'' \<longrightarrow> sorted (rev (map date_key sorted_tracks))) \<and>
     (\<forall>d. filter (\<lambda>t. date_key t = d) sorted_tracks = filter (\<lambda>t. date_key t = d) tracks) \<and>
     (\<forall>t \<in> set tracks. date_key t = (case album_release_date t of None \<Rightarrow> '''' | Some d \<Rightarrow> d))"
proof -
  have rev: "(lower sort_order = ''desc'') = (sort_order = ''desc'')"
    using assms by (auto simp: lower_def lower_char_def)
  let ?out = "py_sorted date_key (sort_order = ''desc'') tracks"
  have "sort_tracks srv tracks ''date'' sort_order client_token w = (Returns ?out, w)"
    by (simp add: sort_tracks_def rev)
  moreover have "mset ?out = mset tracks"
    by (rule py_sorted_mset)
  moreover have "sort_order = ''asc'' \<longrightarrow> sorted (map date_key ?out)"
    using py_sorted_ascending [of date_key tracks] by simp
  moreover have "sort_order = ''desc'' \<longrightarrow> sorted (rev (map date_key ?out))"
    using py_sorted_descending [of date_key tracks] by simp
  moreover have "\<forall>d. filter (\<lambda>t. date_key t = d) ?out = filter (\<lambda>t. date_key t = d) tracks"
    by (simp add: py_sorted_stable)
  moreover have "\<forall>t \<in> set tracks. date_key t = (case album_release_date t of None \<Rightarrow> '''' | Some d \<Rightarrow> d)"
    by (simp add: date_key_def)
  ultimately show ?thesis by blast
qed

text \<open>
  The tracks of the repository's test (2010, 2023, 2015), and a fourth with the date of
  the first, which stays behind it in both directions.
\<close>

theorem sort_tracks_by_date_witness:
  "sort_tracks offline
     [song ''1'' ''Old Track'' ''2010-01-01'', song ''2'' ''New Track'' ''2023-01-01'',
      song ''3'' ''Middle Track'' ''2015-01-01'', song ''4'' ''Old Twin'' ''2010-01-01'']
     ''date'' ''asc'' ''test_token'' fresh_world =
     (Returns [song ''1'' ''Old Track'' ''2010-01-01'', song ''4'' ''Old Twin'' ''2010-01-01'',
               song ''3'' ''Middle Track'' ''2015-01-01'', song ''2'' ''New Track'' ''2023-01-01''],
      fresh_world) \<and>
   sort_tracks offline
     [song ''1'' ''Old Track'' ''2010-01-01'', song ''2'' ''New Track'' ''2023-01-01'',
      song ''3'' ''Middle Track'' ''2015-01-01'', song ''4'' ''Old Twin'' ''2010-01-01'']
     ''date'' ''desc'' ''test_token'' fresh_world =
     (Returns [song ''2'' ''New Track'' ''2023-01-01'', song ''3'' ''Middle Track'' ''2015-01-01'',
               song ''1'' ''Old Track'' ''2010-01-01'', song ''4'' ''Old Twin'' ''2010-01-01''],
      fresh_world) \<and>
   sorted (map date_key
     [song ''1'' ''Old Track'' ''2010-01-01'', song ''4'' ''Old Twin'' ''2010-01-01'',
      song ''3'' ''Middle Track'' ''2015-01-01'', song ''2'' ''New Track'' ''2023-01-01''])"
proof -
  let ?tracks = "[song ''1'' ''Old Track'' ''2010-01-01'', song ''2'' ''New Track'' ''2023-01-01'',
      song ''3'' ''Middle Track'' ''2015-01-01'', song ''4'' ''Old Twin'' ''2010-01-01'']"
  let ?up = "[song ''1'' ''Old Track'' ''2010-01-01'', song ''4'' ''Old Twin'' ''2010-01-01'',
      song ''3'' ''Middle Track'' ''2015-01-01'', song ''2'' ''New Track'' ''2023-01-01'']"
  have asc: "sort_tracks offline ?tracks ''date'' ''asc'' ''test_token'' fresh_world =
      (Returns ?up, fresh_world)"
    by (simp add: sort_tracks_def py_sorted_def lower_def lower_char_def date_key_def song_def)
  have desc: "sort_tracks offline ?tracks ''date'' ''desc'' ''test_token'' fresh_world =
      (Returns [song ''2'' ''New Track'' ''2023-01-01'', song ''3'' ''Middle Track'' ''2015-01-01'',
               song ''1'' ''Old Track'' ''2010-01-01'', song ''4'' ''Old Twin'' ''2010-01-01''],
       fresh_world)"
    by (simp add: sort_tracks_def py_sorted_def lower_def lower_char_def date_key_def song_def)
  have "''asc'' = ''asc'' \<or> ''asc'' = ''desc''"
    by simp
  from sort_tracks_by_date [OF this, of offline ?tracks "''test_token''" fresh_world]
  obtain sorted_tracks where
    "sort_tracks offline ?tracks ''date'' ''asc'' ''test_token'' fresh_world =
       (Returns sorted_tracks, fresh_world)"
    "sorted (map date_key sorted_tracks)"
    by blast
  then have "sorted (map date_key ?up)"
    unfolding asc by simp
  with asc desc show ?thesis by blast
qed

subsection \<open>Batches\<close>

lemma length_batches: "length (batches track_uris) = (length track_uris + 99) div 100"
  by (simp add: batches_def)

lemma batch_index: "k < length (batches track_uris) \<longleftrightarrow> 100 * k < length track_uris"
  unfolding length_batches by linarith

lemma nth_batches:
  "k < length (batches track_uris) \<Longrightarrow>
   batches track_uris ! k = take 100 (drop (100 * k) track_uris)"
  by (simp add: batches_def)

lemma concat_slices:
  "concat (map (\<lambda>k. take n (drop (n * k) xs)) [0..<m]) = take (n * m) xs"
proof (induction m)
  case 0
  show ?case by simp
next
  case (Suc m)
  have "take (n + n * m) xs = take (n * m) xs @ take n (drop (n * m) xs)"
    using take_add [of "n * m" n xs] by (simp add: add.commute)
  then show ?case
    using Suc by simp
qed

lemma concat_batches: "concat (batches track_uris) = track_uris"
proof -
  have "length track_uris \<le> 100 * ((length track_uris + 99) div 100)"
    by linarith
  then show ?thesis
    unfolding batches_def concat_slices by simp
qed

lemma batches_size:
  assumes "b \<in> set (batches track_uris)"
  shows "b \<noteq> [] \<and> length b \<le> 100"
proof -
  from assms obtain k where k: "k < length (batches track_uris)" "b = batches track_uris ! k"
    by (auto simp: in_set_conv_nth)
  then have "100 * k < length track_uris"
    by (simp add: batch_index)
  then show ?thesis
    unfolding k(2) nth_batches [OF k(1)] by simp
qed

lemma add_tracks_loop_done:
  "\<not> i < length track_uris \<Longrightarrow>
   add_tracks_loop srv token playlist_id' track_uris i w = (Returns True, w)"
  by (subst add_tracks_loop.simps) simp

lemma add_tracks_loop_all:
  assumes "submit_all srv token playlist_id' (drop j (batches track_uris)) w = Some w'"
      and "d = length (batches track_uris) - j" "j \<le> length (batches track_uris)"
  shows "add_tracks_loop srv token playlist_id' track_uris (100 * j) w = (Returns True, w')"
  using assms
proof (induction d arbitrary: j w)
  case 0
  then have "j = length (batches track_uris)" by simp
  then have "\<not> 100 * j < length track_uris" "w' = w"
    using batch_index [of j track_uris] "0.prems"(1) by simp_all
  then show ?case
    by (simp add: add_tracks_loop_done)
next
  case (Suc d)
  then have j: "j < length (batches track_uris)"
    by simp
  then have i: "100 * j < length track_uris"
    by (simp add: batch_index)
  let ?b = "take 100 (drop (100 * j) track_uris)"
  have split: "drop j (batches track_uris) = ?b # drop (Suc j) (batches track_uris)"
    using Cons_nth_drop_Suc [OF j] nth_batches [OF j] by simp
  obtain res w1 where sub: "submit_batch srv token playlist_id' ?b w = (res, w1)"
    by (cases "submit_batch srv token playlist_id' ?b w")
  from Suc.prems(1) obtain r where r: "res = Returns r" "truthy r"
    and rest: "submit_all srv token playlist_id' (drop (Suc j) (batches track_uris)) w1 = Some w'"
    unfolding split by (cases res) (auto simp: sub split: if_splits)
  have "add_tracks_loop srv token playlist_id' track_uris (100 * j) w =
        add_tracks_loop srv token playlist_id' track_uris (100 * j + 100) w1"
    using i r(2) sub [unfolded submit_batch_def r(1)] by (rule add_tracks_loop_truthy)
  also have "100 * j + 100 = 100 * Suc j"
    by simp
  also have "add_tracks_loop srv token playlist_id' track_uris (100 * Suc j) w1 = (Returns True, w')"
    using rest by (rule Suc.IH) (use Suc.prems j in simp_all)
  finally show ?case .
qed

lemma add_tracks_loop_first_failure:
  assumes "submit_all srv token playlist_id' (take (k - j) (drop j (batches track_uris))) w = Some w1"
      and "submit_batch srv token playlist_id' (batches track_uris ! k) w1 = (Returns r, w2)"
      and "\<not> truthy r" "k < length (batches track_uris)" "j \<le> k" "d = k - j"
  shows "add_tracks_loop srv token playlist_id' track_uris (100 * j) w =
           (Returns False,
            say (FailedToAddTracks (100 * k + 1) (100 * k + length (batches track_uris ! k))) w2)"
  using assms
proof (induction d arbitrary: j w)
  case 0
  then have jk: "j = k" and w1: "w1 = w"
    by simp_all
  have i: "100 * k < length track_uris"
    using "0.prems"(4) by (simp add: batch_index)
  show ?case
    unfolding jk
    using add_tracks_loop_falsy [OF i "0.prems"(3),
        OF "0.prems"(2) [unfolded submit_batch_def nth_batches [OF "0.prems"(4)] w1]]
    by (simp add: nth_batches [OF "0.prems"(4)])
next
  case (Suc d)
  then have jk: "j < k" and j: "j < length (batches track_uris)"
    by simp_all
  then have i: "100 * j < length track_uris"
    by (simp add: batch_index)
  let ?b = "take 100 (drop (100 * j) track_uris)"
  have "drop j (batches track_uris) = ?b # drop (Suc j) (batches track_uris)"
    using Cons_nth_drop_Suc [OF j] nth_batches [OF j] by simp
  moreover have "k - j = Suc (k - Suc j)"
    using jk by simp
  ultimately have split: "take (k - j) (drop j (batches track_uris)) =
      ?b # take (k - Suc j) (drop (Suc j) (batches track_uris))"
    by simp
  obtain res v where sub: "submit_batch srv token playlist_id' ?b w = (res, v)"
    by (cases "submit_batch srv token playlist_id' ?b w")
  from Suc.prems(1) obtain r' where r': "res = Returns r'" "truthy r'"
    and rest: "submit_all srv token playlist_id'
                 (take (k - Suc j) (drop (Suc j) (batches track_uris))) v = Some w1"
    unfolding split by (cases res) (auto simp: sub split: if_splits)
  have "add_tracks_loop srv token playlist_id' track_uris (100 * j) w =
        add_tracks_loop srv token playlist_id' track_uris (100 * j + 100) v"
    using i r'(2) sub [unfolded submit_batch_def r'(1)] by (rule add_tracks_loop_truthy)
  also have "100 * j + 100 = 100 * Suc j"
    by simp
  also have "add_tracks_loop srv token playlist_id' track_uris (100 * Suc j) v =
           (Returns False,
            say (FailedToAddTracks (100 * k + 1) (100 * k + length (batches track_uris ! k))) w2)"
    using rest Suc.prems(2,3,4) by (rule Suc.IH) (use Suc.prems jk in simp_all)
  finally show ?case .
qed

lemma submit_batch_requests:
  assumes "submit_batch srv token playlist_id' b v = (res, v')"
  shows "\<exists>c. 1 \<le> c \<and> c \<le> 6 \<and>
           requests v' = requests v @ replicate c
             \<lparr>verb = ''POST'', url = SPOTIFY_API_BASE @ ''/'' @ ''playlists/'' @ playlist_id' @ ''/tracks'',
              headers = [(''Authorization'', ''Bearer '' @ token),
                         (''Content-Type'', ''application/json'')],
              params = None, json_body = Some [(''uris'', Strs b)]\<rparr>"
proof -
  have "build_request (''playlists/'' @ playlist_id' @ ''/tracks'') token ''POST''
          (Some [(''uris'', Strs b)]) None =
        Some \<lparr>verb = ''POST'', url = SPOTIFY_API_BASE @ ''/'' @ ''playlists/'' @ playlist_id' @ ''/tracks'',
              headers = [(''Authorization'', ''Bearer '' @ token),
                         (''Content-Type'', ''application/json'')],
              params = None, json_body = Some [(''uris'', Strs b)]\<rparr>"
    by (simp add: build_request_def)
  from make_spotify_request_effects [OF assms [unfolded submit_batch_def] this]
  show ?thesis by blast
qed

lemma main_add_tracks_after_failure:
  assumes "add_tracks_to_playlist srv auth_token (playlist_id pl) (map uri sorted_tracks)
             (say (AddingTracks (length sorted_tracks)) w) = (Returns False, w2)"
  shows "main_add_tracks srv auth_token pl sorted_tracks w =
           (Returns (), say (PlaylistCreatedWithErrors (playlist_url pl)) w2)"
  using assms by (simp add: main_add_tracks_def Let_def)

text \<open>
  Claim C7. The batches are the consecutive slices of at most 100 URIs, none empty,
  which together are the list. \<open>add_tracks_to_playlist\<close> submits them in order:
  \<^item> when every batch is submitted with a truthy result, it returns \<open>True\<close> in the world
    these submissions leave;
  \<^item> when the first \<open>k\<close> batches succeed and the next is submitted with a result that is
    not truthy, it prints the 1-based range \<open>100 k + 1\<close> to \<open>100 k + len(batch)\<close> and
    returns \<open>False\<close> in the world that submission left, so no later batch is sent;
  \<^item> the submission of a batch sends nothing but posts of that batch (at most six), so
    nothing is sent that would undo an earlier batch or the playlist;
  \<^item> after a \<open>False\<close>, \<open>main\<close> only prints that the playlist was created with errors.
\<close>

theorem add_tracks_to_playlist_batches:
  "concat (batches track_uris) = track_uris \<and>
   (\<forall>b \<in> set (batches track_uris). b \<noteq> [] \<and> length b \<le> 100) \<and>
   (\<forall>w'. submit_all srv token playlist_id' (batches track_uris) w = Some w' \<longrightarrow>
      add_tracks_to_playlist srv token playlist_id' track_uris w = (Returns True, w')) \<and>
   (\<forall>k w1 r w2.
      k < length (batches track_uris) \<and>
      submit_all srv token playlist_id' (take k (batches track_uris)) w = Some w1 \<and>
      submit_batch srv token playlist_id' (batches track_uris ! k) w1 = (Returns r, w2) \<and>
      \<not> truthy r \<longrightarrow>
      add_tracks_to_playlist srv token playlist_id' track_uris w =
        (Returns False,
         say (FailedToAddTracks (100 * k + 1) (100 * k + length (batches track_uris ! k))) w2)) \<and>
   (\<forall>b v res v'. submit_batch srv token playlist_id' b v = (res, v') \<longrightarrow>
      (\<exists>c. 1 \<le> c \<and> c \<le> 6 \<and>
         requests v' = requests v @ replicate c
           \<lparr>verb = ''POST'', url = SPOTIFY_API_BASE @ ''/'' @ ''playlists/'' @ playlist_id' @ ''/tracks'',
            headers = [(''Authorization'', ''Bearer '' @ token),
                       (''Content-Type'', ''application/json'')],
            params = None, json_body = Some [(''uris'', Strs b)]\<rparr>)) \<and>
   (\<forall>pl sorted_tracks u u2.
      add_tracks_to_playlist srv token (playlist_id pl) (map uri sorted_tracks)
        (say (AddingTracks (length sorted_tracks)) u) = (Returns False, u2) \<longrightarrow>
      main_add_tracks srv token pl sorted_tracks u =
        (Returns (), say (PlaylistCreatedWithErrors (playlist_url pl)) u2))"
proof (intro conjI ballI allI impI)
  show "concat (batches track_uris) = track_uris"
    by (rule concat_batches)
  show "b \<noteq> []" "length b \<le> 100" if "b \<in> set (batches track_uris)" for b
    using batches_size [OF that] by simp_all
  show "add_tracks_to_playlist srv token playlist_id' track_uris w = (Returns True, w')"
    if "submit_all srv token playlist_id' (batches track_uris) w = Some w'" for w'
    using add_tracks_loop_all [where j = 0 and track_uris = track_uris] that
    by (simp add: add_tracks_to_playlist_def)
  show "add_tracks_to_playlist srv token playlist_id' track_uris w =
        (Returns False,
         say (FailedToAddTracks (100 * k + 1) (100 * k + length (batches track_uris ! k))) w2)"
    if "k < length (batches track_uris) \<and>
      submit_all srv token playlist_id' (take k (batches track_uris)) w = Some w1 \<and>
      submit_batch srv token playlist_id' (batches track_uris ! k) w1 = (Returns r, w2) \<and>
      \<not> truthy r" for k w1 r w2
    using add_tracks_loop_first_failure [where j = 0 and k = k and track_uris = track_uris] that
    by (simp add: add_tracks_to_playlist_def)
  show "\<exists>c. 1 \<le> c \<and> c \<le> 6 \<and>
         requests v' = requests v @ replicate c
           \<lparr>verb = ''POST'', url = SPOTIFY_API_BASE @ ''/'' @ ''playlists/'' @ playlist_id' @ ''/tracks'',
            headers = [(''Authorization'', ''Bearer '' @ token),
                       (''Content-Type'', ''application/json'')],
            params = None, json_body = Some [(''uris'', Strs b)]\<rparr>"
    if "submit_batch srv token playlist_id' b v = (res, v')" for b v res v'
    using that by (rule submit_batch_requests)
  show "main_add_tracks srv token pl sorted_tracks u =
        (Returns (), say (PlaylistCreatedWithErrors (playlist_url pl)) u2)"
    if "add_tracks_to_playlist srv token (playlist_id pl) (map uri sorted_tracks)
        (say (AddingTracks (length sorted_tracks)) u) = (Returns False, u2)" for pl sorted_tracks u u2
    using that by (rule main_add_tracks_after_failure)
qed

text \<open>
  101 URIs against the service that accepts only the first post: the second batch is
  reported as the range 101 to 101, and the log holds the two posts.
\<close>

theorem add_tracks_to_playlist_batches_witness:
  "fst (add_tracks_to_playlist flaky ''token'' ''pl'' many_uris fresh_world) = Returns False \<and>
   printed (snd (add_tracks_to_playlist flaky ''token'' ''pl'' many_uris fresh_world)) =
     [ErrorMakingRequest 500, ResponseText ''Server Error'', FailedToAddTracks 101 101] \<and>
   map json_body (requests (snd (add_tracks_to_playlist flaky ''token'' ''pl'' many_uris fresh_world))) =
     [Some [(''uris'', Strs (replicate 100 ''spotify:track:a''))],
      Some [(''uris'', Strs [''spotify:track:b''])]]"
proof -
  let ?a = "replicate 100 ''spotify:track:a''"
  let ?b = "[''spotify:track:b'']"
  let ?q = "\<lambda>batch. \<lparr>verb = ''POST'', url = SPOTIFY_API_BASE @ ''/'' @ ''playlists/'' @ ''pl'' @ ''/tracks'',
              headers = [(''Authorization'', ''Bearer '' @ ''token''),
                         (''Content-Type'', ''application/json'')],
              params = None, json_body = Some [(''uris'', Strs batch)]\<rparr>"
  have bq: "build_request (''playlists/'' @ ''pl'' @ ''/tracks'') ''token'' ''POST''
              (Some [(''uris'', Strs batch)]) None = Some (?q batch)" for batch
    by (simp add: build_request_def)
  have two: "[0..<2] = [0, Suc 0]"
    by (simp add: upt_rec)
  have bs: "batches many_uris = [?a, ?b]"
    by (simp add: batches_def many_uris_def two)
  let ?w1 = "fresh_world\<lparr>requests := requests fresh_world @ [?q ?a]\<rparr>"
  have "add_api flaky (length (requests fresh_world)) (?q ?a) =
      Response 201 Absent ''{snapshot_id: s1}'' ''s1''" "(201::int) \<noteq> 429"
    by (simp_all add: flaky_def offline_def fresh_world_def)
  from make_spotify_request_answered [where api = "add_api flaky" and w = fresh_world, OF bq _ this]
  have sub0: "submit_batch flaky ''token'' ''pl'' ?a fresh_world = (Returns (Obj ''s1''), ?w1)"
    by (simp add: submit_batch_def)
  have all0: "submit_all flaky ''token'' ''pl'' (take 1 (batches many_uris)) fresh_world = Some ?w1"
    by (simp add: bs sub0)
  let ?w2 = "say (ResponseText ''Server Error'') (say (ErrorMakingRequest 500)
               (?w1\<lparr>requests := requests ?w1 @ [?q ?b]\<rparr>))"
  have "add_api flaky (length (requests ?w1)) (?q ?b) = Response 500 Absent ''Server Error'' []"
    "(500::int) \<noteq> 429"
    by (simp_all add: flaky_def offline_def fresh_world_def)
  from make_spotify_request_answered [where api = "add_api flaky" and w = "?w1", OF bq _ this]
  have sub1: "submit_batch flaky ''token'' ''pl'' (batches many_uris ! 1) ?w1 = (Returns PyNone, ?w2)"
    by (simp add: submit_batch_def bs)
  have "1 < length (batches many_uris) \<and>
      submit_all flaky ''token'' ''pl'' (take 1 (batches many_uris)) fresh_world = Some ?w1 \<and>
      submit_batch flaky ''token'' ''pl'' (batches many_uris ! 1) ?w1 = (Returns PyNone, ?w2) \<and>
      \<not> truthy (PyNone :: string reply)"
    using all0 sub1 by (simp add: bs)
  with add_tracks_to_playlist_batches [of many_uris flaky "''token''" "''pl''" fresh_world]
  have "add_tracks_to_playlist flaky ''token'' ''pl'' many_uris fresh_world =
        (Returns False,
         say (FailedToAddTracks (100 * 1 + 1) (100 * 1 + length (batches many_uris ! 1))) ?w2)"
    by blast
  then show ?thesis
    by (simp add: bs fresh_world_def say_def)
qed

subsection \<open>The tracks of an artist\<close>











subsection \<open>Sorting by popularity\<close>

lemma records_append [simp]: "records (rs @ rs') = records rs @ records rs'"
  by (induction rs rule: records.induct) simp_all

lemma length_records: "length (records rs) \<le> length rs"
  by (induction rs rule: records.induct) simp_all

lemma set_records: "set (records rs) = {d. Obj d \<in> set rs}"
  by (induction rs rule: records.induct) auto

lemma records_all: "length (records rs) = length rs \<longleftrightarrow> (\<forall>r \<in> set rs. truthy r)"
proof (induction rs rule: records.induct)
  case 1
  show ?case by simp
next
  case (2 d rs)
  then show ?case by simp
next
  case (3 rs)
  have "length (records rs) \<le> length rs"
    by (rule length_records)
  then show ?case by auto
next
  case (4 rs)
  have "length (records rs) \<le> length rs"
    by (rule length_records)
  then show ?case by auto
qed

lemma details_loop_replies:
  assumes "detail_replies srv client_token i n tracks w = Some (rs, w')"
  shows "details_loop srv client_token i n tracks acc w = (Returns (acc @ records rs), w') \<and>
         length rs = length tracks"
  using assms
proof (induction tracks arbitrary: i w acc rs)
  case Nil
  then show ?case by simp
next
  case (Cons t tracks)
  let ?w1 = "if i mod 10 = 0 then say (ProcessingTrack i n) w else w"
  obtain res w2 where g: "get_track_details srv (track_id t) client_token ?w1 = (res, w2)"
    by (cases "get_track_details srv (track_id t) client_token ?w1")
  from Cons.prems obtain r rs' where r: "res = Returns r" "rs = r # rs'"
    and rest: "detail_replies srv client_token (Suc i) n tracks w2 = Some (rs', w')"
    by (cases res) (auto simp: g split: option.splits)
  let ?acc = "case r of Obj d \<Rightarrow> acc @ [d] | EmptyObj \<Rightarrow> acc | PyNone \<Rightarrow> acc"
  have step: "details_loop srv client_token i n (t # tracks) acc w =
      details_loop srv client_token (Suc i) n tracks ?acc w2"
    using g r(1) by (simp add: Let_def)
  have acc: "?acc @ records rs' = acc @ records (r # rs')"
    by (cases r) simp_all
  from Cons.IH [OF rest, of ?acc] show ?case
    unfolding step r(2) acc by simp
qed

lemma charts_replies:
  "\<exists>w'. detail_replies charts client_token 1 (length three_songs) three_songs
          (say FetchingPopularity fresh_world) =
        Some ([Obj (detail ''1'' ''Old Track'' 80), PyNone, Obj (detail ''3'' ''Middle Track'' 10)], w')"
  by (simp add: three_songs_def song_def get_track_details_def make_spotify_request_def
      build_request_def request_loop.simps charts_def offline_def SPOTIFY_API_BASE_def Let_def)

lemma sort_tracks_popularity_replies:
  assumes "detail_replies srv client_token 1 (length tracks) tracks (say FetchingPopularity w)
             = Some (replies, w')"
  shows "sort_tracks srv tracks ''popularity'' sort_order client_token w =
           (Returns (py_sorted popularity_key (lower sort_order = ''desc'') (records replies)), w')"
  using details_loop_replies [OF assms, of "[]"] by (simp add: sort_tracks_def)

lemma popularity_example:
  "\<exists>srv' tracks' v out v'.
      sort_tracks srv' tracks' ''popularity'' sort_order client_token v = (Returns out, v') \<and>
      mset out \<noteq> mset tracks' \<and> out \<noteq> [] \<and>
      (\<forall>t \<in> set tracks'. album_release_date t \<noteq> None) \<and>
      (\<forall>t \<in> set out. album_release_date t = None)"
proof -
  let ?rs = "[Obj (detail ''1'' ''Old Track'' 80), PyNone, Obj (detail ''3'' ''Middle Track'' 10)]"
  let ?out = "py_sorted popularity_key (lower sort_order = ''desc'') (records ?rs)"
  from charts_replies [of client_token] obtain w' where
    "detail_replies charts client_token 1 (length three_songs) three_songs
          (say FetchingPopularity fresh_world) = Some (?rs, w')"
    by blast
  from sort_tracks_popularity_replies [OF this]
  have run: "sort_tracks charts three_songs ''popularity'' sort_order client_token fresh_world =
      (Returns ?out, w')" .
  have m: "mset ?out = mset (records ?rs)"
    by (rule py_sorted_mset)
  then have two: "size (mset ?out) = 2"
    by simp
  have "size (mset three_songs) = 3"
    by (simp add: three_songs_def)
  with two have "mset ?out \<noteq> mset three_songs"
    by (metis numeral_eq_iff semiring_norm(88))
  moreover from two have "?out \<noteq> []"
    by auto
  moreover have "set ?out = set (records ?rs)"
    using m by (metis set_mset_mset)
  then have "\<forall>t \<in> set ?out. album_release_date t = None"
    by (simp add: detail_def)
  moreover have "\<forall>t \<in> set three_songs. album_release_date t \<noteq> None"
    by (simp add: three_songs_def song_def)
  ultimately show ?thesis
    using run by blast
qed

text \<open>
  Claim C10. With the method \<open>popularity\<close>, and \<open>replies\<close> what the detail fetches return
  for the tracks in order (one fetch per track): \<open>sort_tracks\<close> returns the records among
  the replies, sorted by popularity. So the result consists of fetched records, not of
  the tracks passed in; a track whose fetch returns \<open>None\<close> or \<open>{}\<close> has no element in
  it; and it is as long as the input only when every fetch succeeded. There are runs
  whose result is not a permutation of the input and has no \<open>album_release_date\<close> at
  all although every track passed in had one.
\<close>

theorem sort_tracks_by_popularity:
  assumes "detail_replies srv client_token 1 (length tracks) tracks (say FetchingPopularity w)
             = Some (replies, w')"
  shows "sort_tracks srv tracks ''popularity'' sort_order client_token w =
           (Returns (py_sorted popularity_key (lower sort_order = ''desc'') (records replies)), w') \<and>
         length replies = length tracks \<and>
         (\<forall>out. sort_tracks srv tracks ''popularity'' sort_order client_token w = (Returns out, w') \<longrightarrow>
            mset out = mset (records replies) \<and>
            set out = {d. Obj d \<in> set replies} \<and>
            length out \<le> length tracks \<and>
            (length out = length tracks \<longleftrightarrow> (\<forall>r \<in> set replies. truthy r))) \<and>
         (\<exists>srv' tracks' v out v'.
            sort_tracks srv' tracks' ''popularity'' sort_order client_token v = (Returns out, v') \<and>
            mset out \<noteq> mset tracks' \<and> out \<noteq> [] \<and>
            (\<forall>t \<in> set tracks'. album_release_date t \<noteq> None) \<and>
            (\<forall>t \<in> set out. album_release_date t = None))"
proof -
  let ?out = "py_sorted popularity_key (lower sort_order = ''desc'') (records replies)"
  note run = sort_tracks_popularity_replies [OF assms, of sort_order]
  have len: "length replies = length tracks"
    using details_loop_replies [OF assms, of "[]"] by simp
  have m: "mset ?out = mset (records replies)"
    by (rule py_sorted_mset)
  have s: "set ?out = {d. Obj d \<in> set replies}"
    using m set_records [of replies] by (metis set_mset_mset)
  have l: "length ?out = length (records replies)"
    using m by (metis size_mset)
  have le: "length ?out \<le> length tracks"
    unfolding l len [symmetric] by (rule length_records)
  have eq: "length ?out = length tracks \<longleftrightarrow> (\<forall>r \<in> set replies. truthy r)"
    unfolding l len [symmetric] by (rule records_all)
  have "\<forall>out. sort_tracks srv tracks ''popularity'' sort_order client_token w = (Returns out, w') \<longrightarrow>
            mset out = mset (records replies) \<and>
            set out = {d. Obj d \<in> set replies} \<and>
            length out \<le> length tracks \<and>
            (length out = length tracks \<longleftrightarrow> (\<forall>r \<in> set replies. truthy r))"
    unfolding run using m s le eq by simp
  then show ?thesis
    using run len popularity_example [of sort_order client_token] by (intro conjI)
qed

text \<open>
  Three dated tracks, of which the second has no details at the service: the result has
  the two fetched records, none with a date.
\<close>

theorem sort_tracks_by_popularity_witness:
  "sort_tracks charts three_songs ''popularity'' ''desc'' ''test_token'' fresh_world =
     (Returns [detail ''1'' ''Old Track'' 80, detail ''3'' ''Middle Track'' 10],
      snd (sort_tracks charts three_songs ''popularity'' ''desc'' ''test_token'' fresh_world)) \<and>
   map track_id three_songs = [''1'', ''2'', ''3''] \<and>
   map album_release_date three_songs =
     [Some ''2010-01-01'', Some ''2023-01-01'', Some ''2015-01-01''] \<and>
   map album_release_date [detail ''1'' ''Old Track'' 80, detail ''3'' ''Middle Track'' 10] =
     [None, None]"
proof -
  let ?rs = "[Obj (detail ''1'' ''Old Track'' 80), PyNone, Obj (detail ''3'' ''Middle Track'' 10)]"
  from charts_replies [of "''test_token''"] obtain w' where
    "detail_replies charts ''test_token'' 1 (length three_songs) three_songs
          (say FetchingPopularity fresh_world) = Some (?rs, w')"
    by blast
  from sort_tracks_by_popularity [OF this, of "''desc''"]
  have "sort_tracks charts three_songs ''popularity'' ''desc'' ''test_token'' fresh_world =
      (Returns (py_sorted popularity_key (lower ''desc'' = ''desc'') (records ?rs)), w')"
    by blast
  moreover have "py_sorted popularity_key (lower ''desc'' = ''desc'') (records ?rs) =
      [detail ''1'' ''Old Track'' 80, detail ''3'' ''Middle Track'' 10]"
    by (simp add: py_sorted_def lower_def lower_char_def popularity_key_def detail_def)
  ultimately show ?thesis
    by (simp add: three_songs_def song_def detail_def)
qed

end
